theory Spec2Isabelle
  imports Main "HOL-Library.FSet" "HOL-Library.Char_ord" "HOL-Library.List_Lexorder"
begin

section \<open>County Business Patterns: the tables of \<^verbatim>\<open>cbp.py\<close>\<close>

text \<open>
  The module \<^verbatim>\<open>src/cbp/cbp.py\<close> holds two constant dictionaries and the class
  \<^verbatim>\<open>Counties\<close>, a pandas \<^verbatim>\<open>DataFrame\<close> with a constructor and five query methods.
  Python values are embedded as the datatype \<open>pyval\<close>, a data frame as a record of its
  column labels and its labelled rows, an exception as a value of \<open>error\<close>. The
  values are \<^verbatim>\<open>None\<close>, integers, strings, lists and sets; floating-point cells are left
  out.
\<close>

subsection \<open>Python values\<close>

datatype pyval =
    PNone
  | PInt int
  | PStr string
  | PList "pyval list"
  | PSet "pyval fset"

text \<open>Truth value testing, as \<^verbatim>\<open>if x:\<close> and \<^verbatim>\<open>if not x:\<close> do it.\<close>

fun truthy :: "pyval \<Rightarrow> bool" where
  "truthy PNone = False"
| "truthy (PInt n) = (n \<noteq> 0)"
| "truthy (PStr s) = (s \<noteq> [])"
| "truthy (PList xs) = (xs \<noteq> [])"
| "truthy (PSet S) = (S \<noteq> {||})"

datatype error =
    ValueError
  | TypeError
  | KeyError
  | AttributeError
  | IndexError
  | SystemExit
  | RequestException

subsection \<open>The constant dictionaries (lines 6 to 27)\<close>

definition emp_imputation :: "string \<rightharpoonup> int" where
  "emp_imputation = map_of
     [(''a'', 10), (''b'', 60), (''c'', 175), (''e'', 375), (''f'', 750), (''g'', 1750),
      (''h'', 3750), (''i'', 7500), (''j'', 17500), (''k'', 37500), (''l'', 75000),
      (''m'', 110000)]"

definition naics_year :: "int \<rightharpoonup> string" where
  "naics_year = map_of
     [(2014, ''NAICS2012''), (2013, ''NAICS2012''), (2012, ''NAICS2012''),
      (2011, ''NAICS2007''), (2010, ''NAICS2007''), (2009, ''NAICS2007''),
      (2008, ''NAICS2007'')]"

subsection \<open>Data frames\<close>

text \<open>
  A row maps a column label to the cell it holds; a frame lists its column labels and its
  rows, each with its index label. Labels are Python objects (the constructor takes them
  from the first row of the server's answer). A label a row has no cell for reads as
  \<^verbatim>\<open>None\<close>.
\<close>

type_synonym row = "pyval \<rightharpoonup> pyval"

record DataFrame =
  columns :: "pyval list"
  rows :: "(pyval \<times> row) list"

definition cell :: "row \<Rightarrow> pyval \<Rightarrow> pyval" where
  "cell r c = (case r c of None \<Rightarrow> PNone | Some v \<Rightarrow> v)"

text \<open>\<^verbatim>\<open>df.name\<close>: the column as a series, or AttributeError when there is no such column.\<close>

definition getattr :: "DataFrame \<Rightarrow> string \<Rightarrow> error + pyval list" where
  "getattr df name =
     (if PStr name \<in> set (columns df) then Inr (map (\<lambda>(l, r). cell r (PStr name)) (rows df))
      else Inl AttributeError)"

text \<open>
  \<^verbatim>\<open>.str.len()\<close> and \<^verbatim>\<open>.str.contains('-')\<close> on one cell: a cell that is no string gives
  a missing value (\<open>None\<close> here). The pattern \<^verbatim>\<open>'-'\<close> matches wherever the hyphen occurs.
\<close>

definition str_len :: "pyval \<Rightarrow> nat option" where
  "str_len v = (case v of PStr s \<Rightarrow> Some (length s) | _ \<Rightarrow> None)"

definition str_contains :: "char \<Rightarrow> pyval \<Rightarrow> bool option" where
  "str_contains c v = (case v of PStr s \<Rightarrow> Some (c \<in> set s) | _ \<Rightarrow> None)"

text \<open>
  \<^verbatim>\<open>a | b\<close> on two masks. The right operand may hold missing values, which the operator
  fills with \<^verbatim>\<open>False\<close>.
\<close>

definition mask_or :: "bool list \<Rightarrow> bool option list \<Rightarrow> bool list" where
  "mask_or a b = map2 (\<lambda>x y. x \<or> y = Some True) a b"

definition series_eq :: "pyval list \<Rightarrow> pyval \<Rightarrow> bool list" where
  "series_eq ser v = map (\<lambda>x. x = v) ser"

definition isin :: "pyval list \<Rightarrow> pyval list \<Rightarrow> bool list" where
  "isin ser vals = map (\<lambda>x. x \<in> set vals) ser"

text \<open>\<^verbatim>\<open>df[mask]\<close>: a frame of the rows whose mask entry is true, labels and columns kept.\<close>

definition getitem :: "DataFrame \<Rightarrow> bool list \<Rightarrow> DataFrame" where
  "getitem df m = df\<lparr>rows := map fst (filter snd (zip (rows df) m))\<rparr>"

subsection \<open>The query methods (lines 115 to 238)\<close>

definition get_county :: "DataFrame \<Rightarrow> pyval \<Rightarrow> error + DataFrame" where
  "get_county self county =
     (case county of
        PList vals \<Rightarrow>
          (case getattr self ''county'' of
             Inl e \<Rightarrow> Inl e
           | Inr c \<Rightarrow> Inr (getitem self (isin c vals)))
      | PStr s \<Rightarrow>
          (case getattr self ''county'' of
             Inl e \<Rightarrow> Inl e
           | Inr c \<Rightarrow> Inr (getitem self (series_eq c (PStr s))))
      | _ \<Rightarrow> Inl TypeError)"

text \<open>Lines 152 and 153, line 181 and line 209: the frames the digit masks select.\<close>

definition two_digits :: "DataFrame \<Rightarrow> error + DataFrame" where
  "two_digits self =
     (case getattr self ''NAICS2012'' of
        Inl e \<Rightarrow> Inl e
      | Inr naics \<Rightarrow>
          Inr (getitem self
            (mask_or (map (\<lambda>v. str_len v = Some 2) naics)
                     (map (str_contains CHR ''-'') naics))))"

definition three_digits :: "DataFrame \<Rightarrow> error + DataFrame" where
  "three_digits self =
     (case getattr self ''NAICS2012'' of
        Inl e \<Rightarrow> Inl e
      | Inr naics \<Rightarrow>
          Inr (getitem self
            (mask_or (map (\<lambda>v. str_len v = Some 3) naics)
                     (map Some (series_eq naics (PStr ''00''))))))"

definition four_digits :: "DataFrame \<Rightarrow> error + DataFrame" where
  "four_digits self =
     (case getattr self ''NAICS2012'' of
        Inl e \<Rightarrow> Inl e
      | Inr naics \<Rightarrow>
          Inr (getitem self
            (mask_or (map (\<lambda>v. str_len v = Some 4) naics)
                     (map Some (series_eq naics (PStr ''00''))))))"

text \<open>
  Each digit method then repeats, on the frame it selected, the three branches of
  \<open>get_county\<close> (lines 156 to 161, 184 to 189, 212 to 217), but only under
  \<^verbatim>\<open>if county:\<close>.
\<close>

definition two_digit :: "DataFrame \<Rightarrow> pyval \<Rightarrow> error + DataFrame" where
  "two_digit self county =
     (case two_digits self of
        Inl e \<Rightarrow> Inl e
      | Inr d \<Rightarrow> (if truthy county then get_county d county else Inr d))"

definition three_digit :: "DataFrame \<Rightarrow> pyval \<Rightarrow> error + DataFrame" where
  "three_digit self county =
     (case three_digits self of
        Inl e \<Rightarrow> Inl e
      | Inr d \<Rightarrow> (if truthy county then get_county d county else Inr d))"

definition four_digit :: "DataFrame \<Rightarrow> pyval \<Rightarrow> error + DataFrame" where
  "four_digit self county =
     (case four_digits self of
        Inl e \<Rightarrow> Inl e
      | Inr d \<Rightarrow> (if truthy county then get_county d county else Inr d))"

text \<open>
  \<open>total\<close> (lines 223 to 238): \<^verbatim>\<open>groupby(by='NAICS2012')\<close> forms one group per key
  value, in sorted order, and leaves out the rows whose key is missing; \<^verbatim>\<open>agg\<close> sums the
  two count columns in each group. The result is indexed by the keys and has the two
  summed columns. \<^verbatim>\<open>NAICS2012\<close> is read as a string column (line 58) and the counts are
  columns of signed 64-bit integers (the casts of lines 88 to 94): their sum is taken in
  64-bit arithmetic and wraps around. The sum of a column that holds anything but
  64-bit integers depends on the pandas version and stands here as TypeError.
\<close>

definition in_int64 :: "int \<Rightarrow> bool" where
  "in_int64 n \<longleftrightarrow> - 9223372036854775808 \<le> n \<and> n < 9223372036854775808"

definition int64 :: "int \<Rightarrow> int" where
  "int64 n = (n + 9223372036854775808) mod 18446744073709551616 - 9223372036854775808"

definition group_keys :: "pyval list \<Rightarrow> string list" where
  "group_keys ser = sort (remdups (concat (map (\<lambda>v. case v of PStr s \<Rightarrow> [s] | _ \<Rightarrow> []) ser)))"

fun agg_sum :: "pyval list \<Rightarrow> error + int" where
  "agg_sum [] = Inr 0"
| "agg_sum (v # vs) =
     (case v of
        PInt n \<Rightarrow>
          (if in_int64 n then
             (case agg_sum vs of Inl e \<Rightarrow> Inl e | Inr t \<Rightarrow> Inr (int64 (n + t)))
           else Inl TypeError)
      | _ \<Rightarrow> Inl TypeError)"

text \<open>The first error of a run of results, or all their values.\<close>

fun collect :: "(error + 'a) list \<Rightarrow> error + 'a list" where
  "collect [] = Inr []"
| "collect (x # xs) =
     (case x of
        Inl e \<Rightarrow> Inl e
      | Inr v \<Rightarrow> (case collect xs of Inl e \<Rightarrow> Inl e | Inr vs \<Rightarrow> Inr (v # vs)))"

definition agg_group :: "DataFrame \<Rightarrow> string \<Rightarrow> error + (pyval \<times> row)" where
  "agg_group self k =
     (let grp = filter (\<lambda>(l, r). cell r (PStr ''NAICS2012'') = PStr k) (rows self) in
      case agg_sum (map (\<lambda>(l, r). cell r (PStr ''EMP'')) grp) of
        Inl e \<Rightarrow> Inl e
      | Inr emp \<Rightarrow>
          (case agg_sum (map (\<lambda>(l, r). cell r (PStr ''ESTAB'')) grp) of
             Inl e \<Rightarrow> Inl e
           | Inr estab \<Rightarrow>
               Inr (PStr k, [PStr ''EMP'' \<mapsto> PInt emp, PStr ''ESTAB'' \<mapsto> PInt estab])))"

definition total :: "DataFrame \<Rightarrow> error + DataFrame" where
  "total self =
     (if PStr ''NAICS2012'' \<notin> set (columns self) then Inl KeyError
      else if PStr ''EMP'' \<notin> set (columns self) then Inl KeyError
      else if PStr ''ESTAB'' \<notin> set (columns self) then Inl KeyError
      else
        (case collect (map (agg_group self)
                (group_keys (map (\<lambda>(l, r). cell r (PStr ''NAICS2012'')) (rows self)))) of
           Inl e \<Rightarrow> Inl e
         | Inr out \<Rightarrow> Inr \<lparr>columns = [PStr ''EMP'', PStr ''ESTAB''], rows = out\<rparr>))"

subsection \<open>Frames as objects\<close>

text \<open>
  A frame is a mutable object: \<^verbatim>\<open>df[name] = values\<close> and \<^verbatim>\<open>drop(..., inplace=True)\<close>
  change the frame they are called on, while boolean indexing and
  \<^verbatim>\<open>groupby(...).agg(...)\<close> build a new frame and leave theirs alone. To tell the two
  apart, frames live in a store and are named by their position in it. A call that
  builds a frame appends it to the store and returns its position; a call in place
  overwrites the frame at the position it is given.
\<close>

type_synonym store = "DataFrame list"

definition getattr_obj :: "store \<Rightarrow> nat \<Rightarrow> string \<Rightarrow> error + pyval list" where
  "getattr_obj s a name = getattr (s ! a) name"

definition getitem_obj :: "store \<Rightarrow> nat \<Rightarrow> bool list \<Rightarrow> nat \<times> store" where
  "getitem_obj s a m = (length s, s @ [getitem (s ! a) m])"

text \<open>
  The query methods on objects, statement by statement: each reads columns of a frame
  and indexes it with a mask.
\<close>

definition get_county_obj :: "store \<Rightarrow> nat \<Rightarrow> pyval \<Rightarrow> (error + nat) \<times> store" where
  "get_county_obj s self county =
     (case county of
        PList vals \<Rightarrow>
          (case getattr_obj s self ''county'' of
             Inl e \<Rightarrow> (Inl e, s)
           | Inr c \<Rightarrow>
               (case getitem_obj s self (isin c vals) of (result, s') \<Rightarrow> (Inr result, s')))
      | PStr v \<Rightarrow>
          (case getattr_obj s self ''county'' of
             Inl e \<Rightarrow> (Inl e, s)
           | Inr c \<Rightarrow>
               (case getitem_obj s self (series_eq c (PStr v)) of
                  (result, s') \<Rightarrow> (Inr result, s')))
      | _ \<Rightarrow> (Inl TypeError, s))"

definition two_digit_obj :: "store \<Rightarrow> nat \<Rightarrow> pyval \<Rightarrow> (error + nat) \<times> store" where
  "two_digit_obj s self county =
     (case getattr_obj s self ''NAICS2012'' of
        Inl e \<Rightarrow> (Inl e, s)
      | Inr naics \<Rightarrow>
          (case getitem_obj s self
                  (mask_or (map (\<lambda>v. str_len v = Some 2) naics)
                           (map (str_contains CHR ''-'') naics)) of
             (d, s1) \<Rightarrow>
               (if truthy county then get_county_obj s1 d county
                else (Inr d, s1))))"

definition three_digit_obj :: "store \<Rightarrow> nat \<Rightarrow> pyval \<Rightarrow> (error + nat) \<times> store" where
  "three_digit_obj s self county =
     (case getattr_obj s self ''NAICS2012'' of
        Inl e \<Rightarrow> (Inl e, s)
      | Inr naics \<Rightarrow>
          (case getitem_obj s self
                  (mask_or (map (\<lambda>v. str_len v = Some 3) naics)
                           (map Some (series_eq naics (PStr ''00'')))) of
             (d, s1) \<Rightarrow>
               (if truthy county then get_county_obj s1 d county
                else (Inr d, s1))))"

definition four_digit_obj :: "store \<Rightarrow> nat \<Rightarrow> pyval \<Rightarrow> (error + nat) \<times> store" where
  "four_digit_obj s self county =
     (case getattr_obj s self ''NAICS2012'' of
        Inl e \<Rightarrow> (Inl e, s)
      | Inr naics \<Rightarrow>
          (case getitem_obj s self
                  (mask_or (map (\<lambda>v. str_len v = Some 4) naics)
                           (map Some (series_eq naics (PStr ''00'')))) of
             (d, s1) \<Rightarrow>
               (if truthy county then get_county_obj s1 d county
                else (Inr d, s1))))"

definition total_obj :: "store \<Rightarrow> nat \<Rightarrow> (error + nat) \<times> store" where
  "total_obj s self =
     (case total (s ! self) of
        Inl e \<Rightarrow> (Inl e, s)
      | Inr grouped \<Rightarrow> (Inr (length s), s @ [grouped]))"

subsection \<open>The constructor (lines 54 to 113)\<close>

text \<open>
  The constructor talks to the outside: one HTTP request or one file read. What the
  outside answers is the environment \<open>env\<close>; what the constructor asked of it is the
  list of \<open>io_event\<close>s it returns beside its result. The HTTP client, the JSON and CSV
  readers and the conversion of one cell to \<^verbatim>\<open>int\<close> belong to the libraries and are
  fields of \<open>env\<close>.
\<close>

datatype http_result = HTTPError | ConnectionError | Response string

datatype io_event = HttpGet string | ReadCsv string

record env =
  requests_get :: "string \<Rightarrow> http_result"
  read_json :: "string \<Rightarrow> error + DataFrame"
  astype_int :: "pyval \<Rightarrow> error + int"
  read_csv :: "string \<Rightarrow> error + DataFrame"

text \<open>\<^verbatim>\<open>year\<close> is a string or an integer; \<^verbatim>\<open>format\<close> prints an integer in decimal.\<close>

datatype year = YInt int | YStr string

function str_nat :: "nat \<Rightarrow> string" where
  "str_nat n =
     (if n < 10 then [char_of (48 + n)]
      else str_nat (n div 10) @ [char_of (48 + n mod 10)])"
  by pat_completeness auto
termination
  by (relation "measure id") auto

definition str_int :: "int \<Rightarrow> string" where
  "str_int i = (if i < 0 then CHR ''-'' # str_nat (nat (- i)) else str_nat (nat i))"

definition format_year :: "year \<Rightarrow> string" where
  "format_year y = (case y of YInt i \<Rightarrow> str_int i | YStr s \<Rightarrow> s)"

fun join :: "string \<Rightarrow> string list \<Rightarrow> string" where
  "join sep [] = []"
| "join sep [x] = x"
| "join sep (x # y # ys) = x @ sep @ join sep (y # ys)"

text \<open>Lines 68 to 75. An absent or empty \<^verbatim>\<open>variables\<close> selects the default list.\<close>

definition request_url :: "string \<Rightarrow> year \<Rightarrow> string \<Rightarrow> string list option \<Rightarrow> string" where
  "request_url state_fips year key variables =
     (let baseurl = ''http://api.census.gov/data/'' @ format_year year @ ''/cbp'';
          cbp_vars =
            (case variables of
               None \<Rightarrow> ''EMP,EMP_F,ESTAB,NAICS2012,NAICS2012_TTL,GEO_TTL''
             | Some vs \<Rightarrow>
                 (if vs \<noteq> [] then join '','' vs
                  else ''EMP,EMP_F,ESTAB,NAICS2012,NAICS2012_TTL,GEO_TTL''))
      in baseurl @ ''?get='' @ cbp_vars @ ''&for=county:*&in=state:'' @ state_fips
           @ ''&key='' @ key)"

text \<open>\<^verbatim>\<open>df[name] = values\<close>: the column is replaced, or added as the last one.\<close>

definition setitem :: "DataFrame \<Rightarrow> string \<Rightarrow> pyval list \<Rightarrow> DataFrame" where
  "setitem df name vals =
     \<lparr>columns = (if PStr name \<in> set (columns df) then columns df
                  else columns df @ [PStr name]),
      rows = map (\<lambda>((l, r), v). (l, r(PStr name \<mapsto> v))) (zip (rows df) vals)\<rparr>"

text \<open>
  Lines 85 and 86: the cells of the first row become the column labels, and the rows
  carrying the first row's index label are dropped. A frame without rows has no first
  row (IndexError).
\<close>

definition promote_header :: "DataFrame \<Rightarrow> error + DataFrame" where
  "promote_header results =
     (case rows results of
        [] \<Rightarrow> Inl IndexError
      | (l0, r0) # _ \<Rightarrow>
          (let labels = map (cell r0) (columns results) in
           Inr \<lparr>columns = labels,
                rows = map (\<lambda>(l, r). (l, map_of (zip labels (map (cell r) (columns results)))))
                         (filter (\<lambda>(l, r). l \<noteq> l0) (rows results))\<rparr>))"

text \<open>
  Lines 93 and 94, for one of the two count columns: KeyError when the column is not
  there, else every cell is converted and the column replaced.
\<close>

definition astype_column :: "env \<Rightarrow> string \<Rightarrow> DataFrame \<Rightarrow> error + DataFrame" where
  "astype_column e variable results =
     (if PStr variable \<notin> set (columns results) then Inl KeyError
      else
        (case collect (map (\<lambda>(l, r). astype_int e (cell r (PStr variable))) (rows results)) of
           Inl err \<Rightarrow> Inl err
         | Inr ns \<Rightarrow> Inr (setitem results variable (map PInt ns))))"

text \<open>
  Lines 77 to 94: the request, the parsed answer, the header and the casts. An HTTP error
  status is printed and ends the process (\<^verbatim>\<open>sys.exit(1)\<close>); a request that fails in
  another way raises past the \<^verbatim>\<open>except\<close> clause. The two casts run in the order the
  dictionary literal lists them.
\<close>

definition fetch :: "env \<Rightarrow> string \<Rightarrow> error + DataFrame" where
  "fetch e url =
     (case requests_get e url of
        HTTPError \<Rightarrow> Inl SystemExit
      | ConnectionError \<Rightarrow> Inl RequestException
      | Response txt \<Rightarrow>
          (case read_json e txt of
             Inl err \<Rightarrow> Inl err
           | Inr parsed \<Rightarrow>
               (case promote_header parsed of
                  Inl err \<Rightarrow> Inl err
                | Inr results \<Rightarrow>
                    (case astype_column e ''EMP'' results of
                       Inl err \<Rightarrow> Inl err
                     | Inr results' \<Rightarrow> astype_column e ''ESTAB'' results'))))"

text \<open>
  Line 99, the function applied to each row \<^verbatim>\<open>x\<close>: \<^verbatim>\<open>emp_imputation[x.EMP_F] if x.EMP_F
  else x.EMP\<close>. Reading an attribute the row does not have raises AttributeError; the
  dictionary raises KeyError for a key it does not hold and TypeError for one that cannot
  be hashed.
\<close>

definition emp_imputation_getitem :: "pyval \<Rightarrow> error + pyval" where
  "emp_imputation_getitem k =
     (case k of
        PStr s \<Rightarrow> (case emp_imputation s of None \<Rightarrow> Inl KeyError | Some v \<Rightarrow> Inr (PInt v))
      | PList _ \<Rightarrow> Inl TypeError
      | PSet _ \<Rightarrow> Inl TypeError
      | _ \<Rightarrow> Inl KeyError)"

definition impute_value :: "pyval list \<Rightarrow> row \<Rightarrow> error + pyval" where
  "impute_value cols x =
     (if PStr ''EMP_F'' \<notin> set cols then Inl AttributeError
      else if truthy (cell x (PStr ''EMP_F'')) then emp_imputation_getitem (cell x (PStr ''EMP_F''))
      else if PStr ''EMP'' \<notin> set cols then Inl AttributeError
      else Inr (cell x (PStr ''EMP'')))"

definition impute :: "DataFrame \<Rightarrow> error + DataFrame" where
  "impute data =
     (case collect (map (\<lambda>(l, x). impute_value (columns data) x) (rows data)) of
        Inl e \<Rightarrow> Inl e
      | Inr vals \<Rightarrow> Inr (setitem data ''EMP'' vals))"

text \<open>
  Line 101, \<^verbatim>\<open>drop(name, axis=1, inplace=True)\<close>: the column goes, and a label that is no
  column is an error (ValueError in the pandas releases of the source's time).
\<close>

definition drop_column :: "DataFrame \<Rightarrow> string \<Rightarrow> error + DataFrame" where
  "drop_column df name =
     (if PStr name \<notin> set (columns df) then Inl ValueError
      else Inr \<lparr>columns = removeAll (PStr name) (columns df),
                rows = map (\<lambda>(l, r). (l, r(PStr name := None))) (rows df)\<rparr>)"

text \<open>Lines 96 to 101.\<close>

definition impute_and_drop :: "bool \<Rightarrow> DataFrame \<Rightarrow> error + DataFrame" where
  "impute_and_drop impute_emp data =
     (case (if impute_emp then impute data else Inr data) of
        Inl e \<Rightarrow> Inl e
      | Inr data' \<Rightarrow> drop_column data' ''EMP_F'')"

text \<open>
  The constructor. \<^verbatim>\<open>key\<close> and \<^verbatim>\<open>filepath\<close> are strings or \<^verbatim>\<open>None\<close>; \<^verbatim>\<open>not key\<close> holds
  for \<^verbatim>\<open>None\<close> and for the empty string. The result is the list of requests and reads
  made, and the frame the object is initialised with or the exception raised.
\<close>

definition Counties_init ::
  "env \<Rightarrow> string \<Rightarrow> year \<Rightarrow> string \<Rightarrow> string option \<Rightarrow> string list option \<Rightarrow> string option
     \<Rightarrow> bool \<Rightarrow> io_event list \<times> (error + DataFrame)" where
  "Counties_init e state_fips year read_from key variables filepath impute_emp =
     (if read_from = ''api'' then
        (case key of
           None \<Rightarrow> ([], Inl ValueError)
         | Some k \<Rightarrow>
             (if k = [] then ([], Inl ValueError)
              else
                (let url = request_url state_fips year k variables in
                 ([HttpGet url],
                  (case fetch e url of
                     Inl err \<Rightarrow> Inl err
                   | Inr data \<Rightarrow> impute_and_drop impute_emp data)))))
      else if read_from = ''csv'' then
        (case filepath of
           None \<Rightarrow> ([], Inl ValueError)
         | Some path \<Rightarrow>
             (if path = [] then ([], Inl ValueError)
              else ([ReadCsv path], read_csv e path)))
      else ([], Inl ValueError))"

subsection \<open>The constructor's steps on objects\<close>

text \<open>
  Lines 98 to 101 work in place on the frame \<^verbatim>\<open>data\<close>: line 99 assigns a column of it
  and line 101 drops one with \<^verbatim>\<open>inplace=True\<close>. On the store both overwrite the frame at
  the position of \<^verbatim>\<open>data\<close>.
\<close>

definition setitem_obj :: "store \<Rightarrow> nat \<Rightarrow> string \<Rightarrow> pyval list \<Rightarrow> store" where
  "setitem_obj s a name vals = s[a := setitem (s ! a) name vals]"

definition drop_obj :: "store \<Rightarrow> nat \<Rightarrow> string \<Rightarrow> error + store" where
  "drop_obj s a name =
     (case drop_column (s ! a) name of
        Inl e \<Rightarrow> Inl e
      | Inr d \<Rightarrow> Inr (s[a := d]))"

definition impute_and_drop_obj :: "store \<Rightarrow> nat \<Rightarrow> bool \<Rightarrow> error + store" where
  "impute_and_drop_obj s data impute_emp =
     (case (if impute_emp then
              (case collect (map (\<lambda>(l, x). impute_value (columns (s ! data)) x)
                               (rows (s ! data))) of
                 Inl e \<Rightarrow> Inl e
               | Inr vals \<Rightarrow> Inr (setitem_obj s data ''EMP'' vals))
            else Inr s) of
        Inl e \<Rightarrow> Inl e
      | Inr s1 \<Rightarrow> drop_obj s1 data ''EMP_F'')"

subsection \<open>Example frames\<close>

text \<open>
  Small frames with the columns the query methods read. \<open>five_codes\<close> holds one row for
  each of the industry codes 00, 11, 113, 1133 and 31-33; \<open>two_counties\<close> holds rows of
  the counties 013 and 015; \<open>short_ranges\<close> holds hyphenated codes of three, four and five
  characters; \<open>pair_11\<close> and \<open>overflow_11\<close> hold two rows of the code 11 each, the second
  with employment counts that add up past the largest 64-bit integer; \<open>mixed_frame\<close> holds
  codes of every length in both counties; \<open>flagged_frame\<close> is a fetched table of one
  flagged row.
\<close>

definition record_row :: "string \<Rightarrow> string \<Rightarrow> int \<Rightarrow> int \<Rightarrow> row" where
  "record_row county naics emp estab =
     [PStr ''county'' \<mapsto> PStr county, PStr ''NAICS2012'' \<mapsto> PStr naics,
      PStr ''EMP'' \<mapsto> PInt emp, PStr ''ESTAB'' \<mapsto> PInt estab]"

definition cbp_columns :: "pyval list" where
  "cbp_columns = [PStr ''EMP'', PStr ''ESTAB'', PStr ''NAICS2012'', PStr ''county'']"

definition five_codes :: DataFrame where
  "five_codes =
     \<lparr>columns = cbp_columns,
      rows = [(PInt 1, record_row ''013'' ''00'' 100 10),
              (PInt 2, record_row ''013'' ''11'' 5 1),
              (PInt 3, record_row ''013'' ''113'' 7 2),
              (PInt 4, record_row ''013'' ''1133'' 7 2),
              (PInt 5, record_row ''013'' ''31-33'' 40 4)]\<rparr>"

definition two_counties :: DataFrame where
  "two_counties =
     \<lparr>columns = cbp_columns,
      rows = [(PInt 1, record_row ''013'' ''00'' 100 10),
              (PInt 2, record_row ''015'' ''00'' 80 9),
              (PInt 3, record_row ''013'' ''11'' 5 1),
              (PInt 4, record_row ''015'' ''11'' 7 2)]\<rparr>"

definition short_ranges :: DataFrame where
  "short_ranges =
     \<lparr>columns = cbp_columns,
      rows = [(PInt 1, record_row ''013'' ''1-2'' 3 1),
              (PInt 2, record_row ''013'' ''1-22'' 4 1),
              (PInt 3, record_row ''013'' ''31-33'' 40 4)]\<rparr>"

definition pair_11 :: DataFrame where
  "pair_11 =
     \<lparr>columns = cbp_columns,
      rows = [(PInt 1, record_row ''013'' ''11'' 5 1),
              (PInt 2, record_row ''015'' ''11'' 7 2)]\<rparr>"

definition overflow_11 :: DataFrame where
  "overflow_11 =
     \<lparr>columns = cbp_columns,
      rows = [(PInt 1, record_row ''013'' ''11'' 9223372036854775807 1),
              (PInt 2, record_row ''015'' ''11'' 1 2)]\<rparr>"

definition mixed_frame :: DataFrame where
  "mixed_frame =
     \<lparr>columns = cbp_columns,
      rows = [(PInt 1, record_row ''013'' ''00'' 100 10),
              (PInt 2, record_row ''013'' ''11'' 5 1),
              (PInt 3, record_row ''013'' ''113'' 7 2),
              (PInt 4, record_row ''015'' ''1133'' 7 2),
              (PInt 5, record_row ''015'' ''31-33'' 40 4),
              (PInt 6, record_row ''015'' ''11'' 9 3)]\<rparr>"

definition flagged_frame :: DataFrame where
  "flagged_frame =
     \<lparr>columns = [PStr ''EMP'', PStr ''EMP_F''],
      rows = [(PInt 1, [PStr ''EMP'' \<mapsto> PInt 0, PStr ''EMP_F'' \<mapsto> PStr ''a''])]\<rparr>"

text \<open>The integer a cell holds, for stating sums.\<close>

definition int_value :: "pyval \<Rightarrow> int" where
  "int_value v = (case v of PInt n \<Rightarrow> n | _ \<Rightarrow> 0)"

subsection \<open>An example environment\<close>

text \<open>
  A server that answers every request with one parsed table, and a conversion to
  \<^verbatim>\<open>int\<close> that reads decimal digits. \<open>parsed_flags\<close> is an answer whose rows carry no
  flag, the flags a and m, and an empty flag; \<open>parsed_unknown\<close> is one whose last rows
  carry the flags d and D, which the imputation table does not hold.
\<close>

definition digit_val :: "char \<Rightarrow> nat option" where
  "digit_val c =
     (let n = (of_char c :: nat) in if 48 \<le> n \<and> n \<le> 57 then Some (n - 48) else None)"

fun int_of_digits :: "string \<Rightarrow> nat \<Rightarrow> error + int" where
  "int_of_digits [] acc = Inr (int acc)"
| "int_of_digits (c # cs) acc =
     (case digit_val c of
        None \<Rightarrow> Inl ValueError
      | Some d \<Rightarrow> int_of_digits cs (10 * acc + d))"

definition example_int :: "pyval \<Rightarrow> error + int" where
  "example_int v =
     (case v of
        PInt n \<Rightarrow> Inr n
      | PStr s \<Rightarrow> (if s = [] then Inl ValueError else int_of_digits s 0)
      | _ \<Rightarrow> Inl TypeError)"

definition example_env :: "DataFrame \<Rightarrow> env" where
  "example_env parsed =
     \<lparr>requests_get = (\<lambda>url. Response ''[...]''),
      read_json = (\<lambda>txt. Inr parsed),
      astype_int = example_int,
      read_csv = (\<lambda>path. Inr two_counties)\<rparr>"

definition raw_row :: "pyval list \<Rightarrow> row" where
  "raw_row cells = map_of (zip [PInt 0, PInt 1, PInt 2, PInt 3, PInt 4, PInt 5] cells)"

definition raw_header :: row where
  "raw_header = raw_row [PStr ''EMP'', PStr ''EMP_F'', PStr ''ESTAB'', PStr ''NAICS2012'',
                         PStr ''state'', PStr ''county'']"

definition parsed_flags :: DataFrame where
  "parsed_flags =
     \<lparr>columns = [PInt 0, PInt 1, PInt 2, PInt 3, PInt 4, PInt 5],
      rows = [(PInt 0, raw_header),
              (PInt 1, raw_row [PStr ''120'', PNone, PStr ''9'', PStr ''11'', PStr ''01'', PStr ''013'']),
              (PInt 2, raw_row [PStr ''0'', PStr ''a'', PStr ''2'', PStr ''113'', PStr ''01'', PStr ''013'']),
              (PInt 3, raw_row [PStr ''0'', PStr ''m'', PStr ''1'', PStr ''31-33'', PStr ''01'', PStr ''015'']),
              (PInt 4, raw_row [PStr ''45'', PStr [], PStr ''3'', PStr ''1133'', PStr ''01'', PStr ''015''])]\<rparr>"

definition parsed_unknown :: DataFrame where
  "parsed_unknown =
     \<lparr>columns = [PInt 0, PInt 1, PInt 2, PInt 3, PInt 4, PInt 5],
      rows = [(PInt 0, raw_header),
              (PInt 1, raw_row [PStr ''120'', PNone, PStr ''9'', PStr ''11'', PStr ''01'', PStr ''013'']),
              (PInt 2, raw_row [PStr ''0'', PStr ''d'', PStr ''2'', PStr ''113'', PStr ''01'', PStr ''013'']),
              (PInt 3, raw_row [PStr ''0'', PStr ''D'', PStr ''1'', PStr ''31-33'', PStr ''01'', PStr ''015''])]\<rparr>"

section \<open>Boolean indexing\<close>

lemma filter_zip_map: "map fst (filter snd (zip xs (map p xs))) = filter p xs"
  by (induction xs) auto

lemma getitem_map: "getitem df (map p (rows df)) = df\<lparr>rows := filter p (rows df)\<rparr>"
  by (simp add: getitem_def filter_zip_map)

lemma mask_or_map:
  "mask_or (map f xs) (map g xs) = map (\<lambda>x. f x \<or> g x = Some True) xs"
  by (induction xs) (auto simp: mask_or_def)

lemma two_digits_filter:
  assumes "PStr ''NAICS2012'' \<in> set (columns df)"
  shows "two_digits df = Inr (df\<lparr>rows := filter
           (\<lambda>(l, r). case cell r (PStr ''NAICS2012'') of
                        PStr s \<Rightarrow> length s = 2 \<or> CHR ''-'' \<in> set s
                      | _ \<Rightarrow> False) (rows df)\<rparr>)"
proof -
  have "mask_or (map (\<lambda>v. str_len v = Some 2) (map (\<lambda>(l, r). cell r (PStr ''NAICS2012'')) (rows df)))
          (map (str_contains CHR ''-'') (map (\<lambda>(l, r). cell r (PStr ''NAICS2012'')) (rows df)))
        = map (\<lambda>(l, r). case cell r (PStr ''NAICS2012'') of
                        PStr s \<Rightarrow> length s = 2 \<or> CHR ''-'' \<in> set s
                      | _ \<Rightarrow> False) (rows df)"
    by (auto simp: mask_or_map str_len_def str_contains_def split: pyval.splits)
  then show ?thesis
    using assms by (simp add: two_digits_def getattr_def getitem_map)
qed

lemma digits_mask:
  "mask_or (map (\<lambda>v. str_len v = Some n) (map (\<lambda>(l, r). cell r (PStr ''NAICS2012'')) rs))
          (map Some (series_eq (map (\<lambda>(l, r). cell r (PStr ''NAICS2012'')) rs) (PStr ''00'')))
        = map (\<lambda>(l, r). case cell r (PStr ''NAICS2012'') of
                        PStr s \<Rightarrow> length s = n \<or> s = ''00''
                      | _ \<Rightarrow> False) rs"
  by (induction rs) (auto simp: mask_or_def series_eq_def str_len_def split: pyval.splits)

lemma three_digits_filter:
  assumes "PStr ''NAICS2012'' \<in> set (columns df)"
  shows "three_digits df = Inr (df\<lparr>rows := filter
           (\<lambda>(l, r). case cell r (PStr ''NAICS2012'') of
                        PStr s \<Rightarrow> length s = 3 \<or> s = ''00''
                      | _ \<Rightarrow> False) (rows df)\<rparr>)"
  using assms digits_mask [of 3 "rows df"]
  by (simp add: three_digits_def getattr_def getitem_map)

lemma four_digits_filter:
  assumes "PStr ''NAICS2012'' \<in> set (columns df)"
  shows "four_digits df = Inr (df\<lparr>rows := filter
           (\<lambda>(l, r). case cell r (PStr ''NAICS2012'') of
                        PStr s \<Rightarrow> length s = 4 \<or> s = ''00''
                      | _ \<Rightarrow> False) (rows df)\<rparr>)"
  using assms digits_mask [of 4 "rows df"]
  by (simp add: four_digits_def getattr_def getitem_map)

lemma get_county_str:
  assumes "PStr ''county'' \<in> set (columns df)"
  shows "get_county df (PStr s) =
           Inr (df\<lparr>rows := filter (\<lambda>(l, r). cell r (PStr ''county'') = PStr s) (rows df)\<rparr>)"
proof -
  have "series_eq (map (\<lambda>(l, r). cell r (PStr ''county'')) (rows df)) (PStr s)
        = map (\<lambda>(l, r). cell r (PStr ''county'') = PStr s) (rows df)"
    by (auto simp: series_eq_def)
  then show ?thesis
    using assms by (simp add: get_county_def getattr_def getitem_map)
qed

lemma get_county_list:
  assumes "PStr ''county'' \<in> set (columns df)"
  shows "get_county df (PList vals) =
           Inr (df\<lparr>rows := filter (\<lambda>(l, r). cell r (PStr ''county'') \<in> set vals) (rows df)\<rparr>)"
proof -
  have "isin (map (\<lambda>(l, r). cell r (PStr ''county'')) (rows df)) vals
        = map (\<lambda>(l, r). cell r (PStr ''county'') \<in> set vals) (rows df)"
    by (auto simp: isin_def)
  then show ?thesis
    using assms by (simp add: get_county_def getattr_def getitem_map)
qed

lemma get_county_TypeError:
  "get_county df sel = Inl TypeError \<longleftrightarrow> (\<forall>s. sel \<noteq> PStr s) \<and> (\<forall>vals. sel \<noteq> PList vals)"
  by (cases sel) (auto simp: get_county_def getattr_def)

section \<open>The digit views without a county selector\<close>

text \<open>
  C2, as the claim states it, has \<open>two_digit\<close> return exactly the rows of the codes 11 and
  31-33 from a frame whose codes are 00, 11, 113, 1133 and 31-33. The code 00 has two
  characters, so the mask of line 152 keeps its row as well: on \<open>five_codes\<close> the result
  holds the rows of 00, 11 and 31-33.
\<close>

theorem two_digit_five_codes:
  "two_digit five_codes PNone =
     Inr (five_codes\<lparr>rows := [(PInt 1, record_row ''013'' ''00'' 100 10),
                               (PInt 2, record_row ''013'' ''11'' 5 1),
                               (PInt 5, record_row ''013'' ''31-33'' 40 4)]\<rparr>)"
proof -
  have "PStr ''NAICS2012'' \<in> set (columns five_codes)"
    by (simp add: five_codes_def cbp_columns_def)
  then have "two_digits five_codes =
     Inr (five_codes\<lparr>rows := filter
           (\<lambda>(l, r). case cell r (PStr ''NAICS2012'') of
                        PStr s \<Rightarrow> length s = 2 \<or> CHR ''-'' \<in> set s
                      | _ \<Rightarrow> False) (rows five_codes)\<rparr>)"
    by (rule two_digits_filter)
  then show ?thesis
    by (simp add: two_digit_def five_codes_def record_row_def cell_def)
qed

text \<open>
  C2 (amended): for every frame with the industry-code column, \<open>two_digit\<close> without a county
  selector returns exactly the rows whose industry code has exactly 2 characters or
  contains the hyphen, and no others; when the codes of the frame are exactly 00, 11,
  113, 1133 and 31-33, the codes of the result are exactly 00, 11 and 31-33.
\<close>

theorem two_digit_no_selector:
  assumes "PStr ''NAICS2012'' \<in> set (columns df)"
  shows "\<exists>d. two_digit df PNone = Inr d
     \<and> d = df\<lparr>rows := filter
           (\<lambda>(l, r). case cell r (PStr ''NAICS2012'') of
                        PStr s \<Rightarrow> length s = 2 \<or> CHR ''-'' \<in> set s
                      | _ \<Rightarrow> False) (rows df)\<rparr>
     \<and> ((\<lambda>(l, r). cell r (PStr ''NAICS2012'')) ` set (rows df)
            = {PStr ''00'', PStr ''11'', PStr ''113'', PStr ''1133'', PStr ''31-33''}
          \<longrightarrow> (\<lambda>(l, r). cell r (PStr ''NAICS2012'')) ` set (rows d)
            = {PStr ''00'', PStr ''11'', PStr ''31-33''})"
proof -
  let ?code = "\<lambda>(l :: pyval, r). cell r (PStr ''NAICS2012'')"
  let ?keep = "\<lambda>(l :: pyval, r). case cell r (PStr ''NAICS2012'') of
                        PStr s \<Rightarrow> length s = 2 \<or> CHR ''-'' \<in> set s
                      | _ \<Rightarrow> False"
  let ?d = "df\<lparr>rows := filter ?keep (rows df)\<rparr>"
  have res: "two_digit df PNone = Inr ?d"
    using two_digits_filter [OF assms] by (simp add: two_digit_def)
  have codes: "?code ` set (rows ?d) = {PStr ''00'', PStr ''11'', PStr ''31-33''}"
    if five: "?code ` set (rows df)
            = {PStr ''00'', PStr ''11'', PStr ''113'', PStr ''1133'', PStr ''31-33''}"
  proof -
    have keep: "?keep x \<longleftrightarrow> ?code x \<in> {PStr ''00'', PStr ''11'', PStr ''31-33''}"
      if "x \<in> set (rows df)" for x
    proof -
      have "?code x \<in> {PStr ''00'', PStr ''11'', PStr ''113'', PStr ''1133'', PStr ''31-33''}"
        using that five by blast
      then show ?thesis
        by (cases x) auto
    qed
    have "?code ` set (rows ?d) = ?code ` {x \<in> set (rows df). ?keep x}"
      by simp
    also have "\<dots> = ?code ` {x \<in> set (rows df). ?code x \<in> {PStr ''00'', PStr ''11'', PStr ''31-33''}}"
      using keep by (intro arg_cong [where f = "\<lambda>S. ?code ` S"]) blast
    also have "\<dots> = ?code ` set (rows df) \<inter> {PStr ''00'', PStr ''11'', PStr ''31-33''}"
      by blast
    also have "\<dots> = {PStr ''00'', PStr ''11'', PStr ''31-33''}"
      unfolding five by blast
    finally show ?thesis .
  qed
  show ?thesis
    using res codes by blast
qed

theorem two_digit_no_selector_witness:
  "PStr ''NAICS2012'' \<in> set (columns five_codes)
   \<and> (\<lambda>(l, r). cell r (PStr ''NAICS2012'')) ` set (rows five_codes)
        = {PStr ''00'', PStr ''11'', PStr ''113'', PStr ''1133'', PStr ''31-33''}
   \<and> (\<exists>d. two_digit five_codes PNone = Inr d
        \<and> (\<lambda>(l, r). cell r (PStr ''NAICS2012'')) ` set (rows d)
             = {PStr ''00'', PStr ''11'', PStr ''31-33''})"
proof -
  have c: "PStr ''NAICS2012'' \<in> set (columns five_codes)"
    by (simp add: five_codes_def cbp_columns_def)
  have five: "(\<lambda>(l, r). cell r (PStr ''NAICS2012'')) ` set (rows five_codes)
        = {PStr ''00'', PStr ''11'', PStr ''113'', PStr ''1133'', PStr ''31-33''}"
    by (simp add: five_codes_def record_row_def cell_def)
  show ?thesis
    using c five two_digit_no_selector [OF c] by blast
qed

text \<open>
  C6, as the claim states it, excludes every code that contains the hyphen from both
  \<open>three_digit\<close> and \<open>four_digit\<close>. The masks of lines 181 and 209 test the length
  only: on \<open>short_ranges\<close> the three-character code 1-2 is in the three-digit view and the
  four-character code 1-22 is in the four-digit view.
\<close>

theorem short_ranges_kept:
  "three_digit short_ranges PNone =
     Inr (short_ranges\<lparr>rows := [(PInt 1, record_row ''013'' ''1-2'' 3 1)]\<rparr>)
   \<and> four_digit short_ranges PNone =
     Inr (short_ranges\<lparr>rows := [(PInt 2, record_row ''013'' ''1-22'' 4 1)]\<rparr>)"
proof -
  have c: "PStr ''NAICS2012'' \<in> set (columns short_ranges)"
    by (simp add: short_ranges_def cbp_columns_def)
  show ?thesis
    using three_digits_filter [OF c] four_digits_filter [OF c]
    by (simp add: three_digit_def four_digit_def short_ranges_def record_row_def cell_def)
qed

text \<open>
  C6 (amended): for every frame with the industry-code column and no county selector,
  \<open>three_digit\<close> returns exactly the rows whose industry code has exactly 3 characters
  or equals 00, and \<open>four_digit\<close> exactly the rows whose industry code has exactly 4
  characters or equals 00; a row whose code contains the hyphen is in the three-digit
  view exactly when the code has 3 characters and in the four-digit view exactly when it
  has 4 characters, so the range tokens of five characters such as 31-33 are in neither.
\<close>

theorem three_four_digit_no_selector:
  assumes "PStr ''NAICS2012'' \<in> set (columns df)"
  shows "\<exists>d3 d4. three_digit df PNone = Inr d3 \<and> four_digit df PNone = Inr d4
     \<and> d3 = df\<lparr>rows := filter
           (\<lambda>(l, r). case cell r (PStr ''NAICS2012'') of
                        PStr s \<Rightarrow> length s = 3 \<or> s = ''00''
                      | _ \<Rightarrow> False) (rows df)\<rparr>
     \<and> d4 = df\<lparr>rows := filter
           (\<lambda>(l, r). case cell r (PStr ''NAICS2012'') of
                        PStr s \<Rightarrow> length s = 4 \<or> s = ''00''
                      | _ \<Rightarrow> False) (rows df)\<rparr>
     \<and> (\<forall>(l, r) \<in> set (rows df). \<forall>s.
           cell r (PStr ''NAICS2012'') = PStr s \<and> CHR ''-'' \<in> set s \<longrightarrow>
             ((l, r) \<in> set (rows d3) \<longleftrightarrow> length s = 3)
           \<and> ((l, r) \<in> set (rows d4) \<longleftrightarrow> length s = 4))"
proof -
  have "three_digit df PNone = three_digits df" "four_digit df PNone = four_digits df"
    by (simp_all add: three_digit_def four_digit_def split: sum.splits)
  then show ?thesis
    using three_digits_filter [OF assms] four_digits_filter [OF assms] by auto
qed

theorem three_four_digit_no_selector_witness:
  "PStr ''NAICS2012'' \<in> set (columns five_codes)
   \<and> three_digit five_codes PNone =
       Inr (five_codes\<lparr>rows := [(PInt 1, record_row ''013'' ''00'' 100 10),
                                 (PInt 3, record_row ''013'' ''113'' 7 2)]\<rparr>)
   \<and> four_digit five_codes PNone =
       Inr (five_codes\<lparr>rows := [(PInt 1, record_row ''013'' ''00'' 100 10),
                                 (PInt 4, record_row ''013'' ''1133'' 7 2)]\<rparr>)"
proof -
  have c: "PStr ''NAICS2012'' \<in> set (columns five_codes)"
    by (simp add: five_codes_def cbp_columns_def)
  obtain d3 d4 where r: "three_digit five_codes PNone = Inr d3"
      "four_digit five_codes PNone = Inr d4"
      "d3 = five_codes\<lparr>rows := filter
           (\<lambda>(l, r). case cell r (PStr ''NAICS2012'') of
                        PStr s \<Rightarrow> length s = 3 \<or> s = ''00''
                      | _ \<Rightarrow> False) (rows five_codes)\<rparr>"
      "d4 = five_codes\<lparr>rows := filter
           (\<lambda>(l, r). case cell r (PStr ''NAICS2012'') of
                        PStr s \<Rightarrow> length s = 4 \<or> s = ''00''
                      | _ \<Rightarrow> False) (rows five_codes)\<rparr>"
    using three_four_digit_no_selector [OF c] by blast
  have "d3 = five_codes\<lparr>rows := [(PInt 1, record_row ''013'' ''00'' 100 10),
                                 (PInt 3, record_row ''013'' ''113'' 7 2)]\<rparr>"
    unfolding r(3) by (simp add: five_codes_def record_row_def cell_def)
  moreover have "d4 = five_codes\<lparr>rows := [(PInt 1, record_row ''013'' ''00'' 100 10),
                                 (PInt 4, record_row ''013'' ''1133'' 7 2)]\<rparr>"
    unfolding r(4) by (simp add: five_codes_def record_row_def cell_def)
  ultimately show ?thesis
    using c r(1,2) by simp
qed

section \<open>The county selector\<close>

text \<open>
  C4, as the claim states it, lets \<open>get_county\<close> take a set of strings and return the rows
  of its member counties. Line 130 tests for a list and line 132 for a string; any other
  selector, a set of strings among them, reaches line 135 and raises TypeError.
\<close>

theorem get_county_set_TypeError:
  "get_county two_counties (PSet {|PStr ''013''|}) = Inl TypeError"
  by (simp add: get_county_def)

text \<open>
  C4 (amended): for every frame with the county column, \<open>get_county\<close> with a string selector
  returns exactly the rows whose county equals the selector, with the columns of the
  input, and with a list selector exactly the rows whose county is an element of the
  list; on every frame it fails with TypeError if and only if the selector is neither a
  string nor a list (a set of strings is such a selector; the elements of a list are not
  inspected).
\<close>

theorem get_county_selector:
  "(PStr ''county'' \<in> set (columns df) \<longrightarrow>
      get_county df (PStr s) =
        Inr (df\<lparr>rows := filter (\<lambda>(l, r). cell r (PStr ''county'') = PStr s) (rows df)\<rparr>)
    \<and> get_county df (PList vals) =
        Inr (df\<lparr>rows := filter (\<lambda>(l, r). cell r (PStr ''county'') \<in> set vals) (rows df)\<rparr>))
   \<and> (get_county df sel = Inl TypeError
        \<longleftrightarrow> (\<forall>s. sel \<noteq> PStr s) \<and> (\<forall>vals. sel \<noteq> PList vals))"
  using get_county_str [of df s] get_county_list [of df vals] get_county_TypeError [of df sel]
  by blast

theorem get_county_selector_witness:
  "PStr ''county'' \<in> set (columns two_counties)
   \<and> get_county two_counties (PStr ''013'') =
       Inr (two_counties\<lparr>rows := [(PInt 1, record_row ''013'' ''00'' 100 10),
                                   (PInt 3, record_row ''013'' ''11'' 5 1)]\<rparr>)
   \<and> get_county two_counties (PList [PStr ''015'', PStr ''017'']) =
       Inr (two_counties\<lparr>rows := [(PInt 2, record_row ''015'' ''00'' 80 9),
                                   (PInt 4, record_row ''015'' ''11'' 7 2)]\<rparr>)
   \<and> get_county two_counties (PInt 13) = Inl TypeError
   \<and> get_county two_counties (PList [PInt 13]) \<noteq> Inl TypeError"
proof -
  have c: "PStr ''county'' \<in> set (columns two_counties)"
    by (simp add: two_counties_def cbp_columns_def)
  have "get_county two_counties (PStr ''013'') =
       Inr (two_counties\<lparr>rows := [(PInt 1, record_row ''013'' ''00'' 100 10),
                                   (PInt 3, record_row ''013'' ''11'' 5 1)]\<rparr>)"
    using c get_county_selector [of two_counties "''013''" "[]" PNone]
    by (simp add: two_counties_def record_row_def cell_def)
  moreover have "get_county two_counties (PList [PStr ''015'', PStr ''017'']) =
       Inr (two_counties\<lparr>rows := [(PInt 2, record_row ''015'' ''00'' 80 9),
                                   (PInt 4, record_row ''015'' ''11'' 7 2)]\<rparr>)"
    using c get_county_selector [of two_counties "[]" "[PStr ''015'', PStr ''017'']" PNone]
    by (simp add: two_counties_def record_row_def cell_def)
  moreover have "get_county two_counties (PInt 13) = Inl TypeError"
    using get_county_selector [of two_counties "[]" "[]" "PInt 13"] by simp
  moreover have "get_county two_counties (PList [PInt 13]) \<noteq> Inl TypeError"
    using get_county_selector [of two_counties "[]" "[]" "PList [PInt 13]"] by simp
  ultimately show ?thesis
    using c by simp
qed

text \<open>
  C10: in \<open>two_digit\<close>, \<open>three_digit\<close> and \<open>four_digit\<close> the empty string and the empty list
  are treated as no selector at all. Each method returns what it returns for \<^verbatim>\<open>None\<close>: on a
  frame with the industry-code column all the rows its digit mask selects (two
  characters or a hyphen; three characters or 00; four characters or 00), of every
  county, and on a frame without that column AttributeError. It never returns
  TypeError: the type of the selector is inspected only under \<^verbatim>\<open>if county:\<close>.
\<close>

theorem falsy_selector_ignored:
  assumes "county = PStr [] \<or> county = PList []"
  shows "two_digit df county = two_digit df PNone
   \<and> three_digit df county = three_digit df PNone
   \<and> four_digit df county = four_digit df PNone
   \<and> two_digit df county \<noteq> Inl TypeError
   \<and> three_digit df county \<noteq> Inl TypeError
   \<and> four_digit df county \<noteq> Inl TypeError
   \<and> (if PStr ''NAICS2012'' \<in> set (columns df)
       then two_digit df county = Inr (df\<lparr>rows := filter
             (\<lambda>(l, r). case cell r (PStr ''NAICS2012'') of
                          PStr s \<Rightarrow> length s = 2 \<or> CHR ''-'' \<in> set s
                        | _ \<Rightarrow> False) (rows df)\<rparr>)
          \<and> three_digit df county = Inr (df\<lparr>rows := filter
             (\<lambda>(l, r). case cell r (PStr ''NAICS2012'') of
                          PStr s \<Rightarrow> length s = 3 \<or> s = ''00''
                        | _ \<Rightarrow> False) (rows df)\<rparr>)
          \<and> four_digit df county = Inr (df\<lparr>rows := filter
             (\<lambda>(l, r). case cell r (PStr ''NAICS2012'') of
                          PStr s \<Rightarrow> length s = 4 \<or> s = ''00''
                        | _ \<Rightarrow> False) (rows df)\<rparr>)
       else two_digit df county = Inl AttributeError
          \<and> three_digit df county = Inl AttributeError
          \<and> four_digit df county = Inl AttributeError)"
proof -
  from assms have falsy: "\<not> truthy county"
    by auto
  have same: "two_digit df county = two_digits df" "three_digit df county = three_digits df"
    "four_digit df county = four_digits df"
    "two_digit df PNone = two_digits df" "three_digit df PNone = three_digits df"
    "four_digit df PNone = four_digits df"
    using falsy by (simp_all add: two_digit_def three_digit_def four_digit_def split: sum.splits)
  show ?thesis
  proof (cases "PStr ''NAICS2012'' \<in> set (columns df)")
    case True
    then show ?thesis
      unfolding same
      using two_digits_filter [OF True] three_digits_filter [OF True] four_digits_filter [OF True]
      by simp
  next
    case False
    then have "two_digits df = Inl AttributeError" "three_digits df = Inl AttributeError"
      "four_digits df = Inl AttributeError"
      by (simp_all add: two_digits_def three_digits_def four_digits_def getattr_def)
    with False show ?thesis
      unfolding same by simp
  qed
qed

theorem falsy_selector_ignored_witness:
  "two_digit mixed_frame (PStr []) =
       Inr (mixed_frame\<lparr>rows := [(PInt 1, record_row ''013'' ''00'' 100 10),
                                  (PInt 2, record_row ''013'' ''11'' 5 1),
                                  (PInt 5, record_row ''015'' ''31-33'' 40 4),
                                  (PInt 6, record_row ''015'' ''11'' 9 3)]\<rparr>)
   \<and> two_digit mixed_frame (PList []) = two_digit mixed_frame (PStr [])
   \<and> three_digit mixed_frame (PList []) =
       Inr (mixed_frame\<lparr>rows := [(PInt 1, record_row ''013'' ''00'' 100 10),
                                  (PInt 3, record_row ''013'' ''113'' 7 2)]\<rparr>)
   \<and> three_digit mixed_frame (PStr []) = three_digit mixed_frame (PList [])
   \<and> four_digit mixed_frame (PStr []) =
       Inr (mixed_frame\<lparr>rows := [(PInt 1, record_row ''013'' ''00'' 100 10),
                                  (PInt 4, record_row ''015'' ''1133'' 7 2)]\<rparr>)
   \<and> four_digit mixed_frame (PList []) = four_digit mixed_frame (PStr [])
   \<and> four_digit (mixed_frame\<lparr>columns := [PStr ''county'']\<rparr>) (PList []) = Inl AttributeError
   \<and> get_county mixed_frame (PList []) = Inr (mixed_frame\<lparr>rows := []\<rparr>)
   \<and> get_county mixed_frame (PStr []) = Inr (mixed_frame\<lparr>rows := []\<rparr>)"
proof -
  have n: "PStr ''NAICS2012'' \<in> set (columns mixed_frame)"
    and c: "PStr ''county'' \<in> set (columns mixed_frame)"
    by (simp_all add: mixed_frame_def cbp_columns_def)
  note str = falsy_selector_ignored [of "PStr []" mixed_frame, OF disjI1, OF refl]
  note lst = falsy_selector_ignored [of "PList []" mixed_frame, OF disjI2, OF refl]
  from str [unfolded if_P [OF n]] have two0: "two_digit mixed_frame (PStr []) = Inr (mixed_frame\<lparr>rows := filter
             (\<lambda>(l, r). case cell r (PStr ''NAICS2012'') of
                          PStr s \<Rightarrow> length s = 2 \<or> CHR ''-'' \<in> set s
                        | _ \<Rightarrow> False) (rows mixed_frame)\<rparr>)"
    and four0: "four_digit mixed_frame (PStr []) = Inr (mixed_frame\<lparr>rows := filter
             (\<lambda>(l, r). case cell r (PStr ''NAICS2012'') of
                          PStr s \<Rightarrow> length s = 4 \<or> s = ''00''
                        | _ \<Rightarrow> False) (rows mixed_frame)\<rparr>)"
    by blast+
  from lst [unfolded if_P [OF n]] have three0: "three_digit mixed_frame (PList []) = Inr (mixed_frame\<lparr>rows := filter
             (\<lambda>(l, r). case cell r (PStr ''NAICS2012'') of
                          PStr s \<Rightarrow> length s = 3 \<or> s = ''00''
                        | _ \<Rightarrow> False) (rows mixed_frame)\<rparr>)"
    by blast
  have two: "two_digit mixed_frame (PStr []) =
       Inr (mixed_frame\<lparr>rows := [(PInt 1, record_row ''013'' ''00'' 100 10),
                                  (PInt 2, record_row ''013'' ''11'' 5 1),
                                  (PInt 5, record_row ''015'' ''31-33'' 40 4),
                                  (PInt 6, record_row ''015'' ''11'' 9 3)]\<rparr>)"
    unfolding two0 by (simp add: mixed_frame_def record_row_def cell_def)
  have three: "three_digit mixed_frame (PList []) =
       Inr (mixed_frame\<lparr>rows := [(PInt 1, record_row ''013'' ''00'' 100 10),
                                  (PInt 3, record_row ''013'' ''113'' 7 2)]\<rparr>)"
    unfolding three0 by (simp add: mixed_frame_def record_row_def cell_def)
  have four: "four_digit mixed_frame (PStr []) =
       Inr (mixed_frame\<lparr>rows := [(PInt 1, record_row ''013'' ''00'' 100 10),
                                  (PInt 4, record_row ''015'' ''1133'' 7 2)]\<rparr>)"
    unfolding four0 by (simp add: mixed_frame_def record_row_def cell_def)
  have eqs: "two_digit mixed_frame (PList []) = two_digit mixed_frame (PStr [])"
    "three_digit mixed_frame (PStr []) = three_digit mixed_frame (PList [])"
    "four_digit mixed_frame (PList []) = four_digit mixed_frame (PStr [])"
    using str lst by (elim conjE, simp)+
  have missing: "four_digit (mixed_frame\<lparr>columns := [PStr ''county'']\<rparr>) (PList [])
      = Inl AttributeError"
  proof -
    have nm: "PStr ''NAICS2012'' \<notin> set (columns (mixed_frame\<lparr>columns := [PStr ''county'']\<rparr>))"
      by simp
    show ?thesis
      using falsy_selector_ignored [of "PList []" "mixed_frame\<lparr>columns := [PStr ''county'']\<rparr>",
          OF disjI2, OF refl, unfolded if_not_P [OF nm]]
      by blast
  qed
  have g1: "get_county mixed_frame (PList []) = Inr (mixed_frame\<lparr>rows := []\<rparr>)"
    using get_county_list [OF c, of "[]"] by simp
  have g2: "get_county mixed_frame (PStr []) = Inr (mixed_frame\<lparr>rows := []\<rparr>)"
    using get_county_str [OF c, of "[]"]
    by (simp add: mixed_frame_def record_row_def cell_def)
  from two three four eqs missing g1 g2 show ?thesis
    by (intro conjI)
qed

section \<open>The constructor\<close>

lemma collect_Inr: "collect xs = Inr vs \<longleftrightarrow> xs = map Inr vs"
proof (induction xs arbitrary: vs)
  case Nil
  then show ?case by auto
next
  case (Cons x xs)
  show ?case
  proof (cases x)
    case (Inl e)
    then show ?thesis by (cases vs) auto
  next
    case (Inr v)
    show ?thesis
    proof (cases "collect xs")
      case (Inl e)
      then have "\<And>ws. xs \<noteq> map Inr ws"
        using Cons.IH by (metis sum.distinct(1))
      with Inl Inr show ?thesis by (cases vs) auto
    next
      case r: (Inr ws)
      then have "xs = map Inr ws" using Cons.IH by simp
      with r Inr show ?thesis by (cases vs) (auto simp: inj_map_eq_map)
    qed
  qed
qed

lemma collect_Inl: "collect xs = Inl e \<Longrightarrow> Inl e \<in> set xs"
  by (induction xs) (auto split: sum.splits)

lemma collect_fails: "Inl e \<in> set xs \<Longrightarrow> \<exists>e'. collect xs = Inl e'"
  by (induction xs) (auto split: sum.splits)

lemma astype_column_columns:
  assumes "astype_column e v df = Inr df'"
  shows "PStr v \<in> set (columns df') \<and> columns df' = columns df"
  using assms by (auto simp: astype_column_def setitem_def split: if_splits sum.splits)

lemma fetch_columns:
  assumes "fetch e url = Inr results"
  shows "PStr ''EMP'' \<in> set (columns results)"
proof -
  from assms obtain r0 r1 where "astype_column e ''EMP'' r0 = Inr r1"
    and "astype_column e ''ESTAB'' r1 = Inr results"
    by (auto simp: fetch_def split: http_result.splits sum.splits)
  then show ?thesis
    using astype_column_columns by metis
qed

lemma impute_value_Inr:
  assumes "impute_value cols x = Inr v"
  shows "if truthy (cell x (PStr ''EMP_F''))
         then \<exists>s n. cell x (PStr ''EMP_F'') = PStr s \<and> emp_imputation s = Some n \<and> v = PInt n
         else v = cell x (PStr ''EMP'')"
  using assms
  by (auto simp: impute_value_def emp_imputation_getitem_def
           split: if_splits pyval.splits option.splits)

lemma impute_value_Inl:
  assumes "impute_value cols x = Inl err"
    and "PStr ''EMP_F'' \<in> set cols" and "PStr ''EMP'' \<in> set cols"
  shows "err = KeyError \<or> err = TypeError"
  using assms
  by (auto simp: impute_value_def emp_imputation_getitem_def
           split: if_splits pyval.splits option.splits)

lemma impute_value_unknown:
  assumes "PStr ''EMP_F'' \<in> set cols" and "truthy (cell x (PStr ''EMP_F''))"
    and "\<forall>s. cell x (PStr ''EMP_F'') = PStr s \<longrightarrow> emp_imputation s = None"
  shows "\<exists>err. impute_value cols x = Inl err"
  using assms
  by (auto simp: impute_value_def emp_imputation_getitem_def
           split: if_splits pyval.splits option.splits)

lemma impute_and_drop_rows:
  assumes "impute_and_drop True data = Inr self"
  shows "\<exists>vals. map (\<lambda>(l, x). impute_value (columns data) x) (rows data) = map Inr vals
     \<and> PStr ''EMP_F'' \<notin> set (columns self)
     \<and> rows self = map (\<lambda>((l, x), v). (l, (x(PStr ''EMP'' \<mapsto> v))(PStr ''EMP_F'' := None)))
                      (zip (rows data) vals)"
proof -
  from assms obtain d where d: "impute data = Inr d" and s: "drop_column d ''EMP_F'' = Inr self"
    by (auto simp: impute_and_drop_def split: sum.splits)
  from d obtain vals where
    v: "collect (map (\<lambda>(l, x). impute_value (columns data) x) (rows data)) = Inr vals"
    and d': "d = setitem data ''EMP'' vals"
    by (auto simp: impute_def split: sum.splits)
  from v have "map (\<lambda>(l, x). impute_value (columns data) x) (rows data) = map Inr vals"
    by (simp add: collect_Inr)
  moreover from s d' have "PStr ''EMP_F'' \<notin> set (columns self)"
    by (auto simp: drop_column_def setitem_def split: if_splits)
  moreover from s d' have "rows self =
      map (\<lambda>((l, x), v). (l, (x(PStr ''EMP'' \<mapsto> v))(PStr ''EMP_F'' := None)))
          (zip (rows data) vals)"
    by (auto simp: drop_column_def setitem_def split: if_splits)
  ultimately show ?thesis by blast
qed

lemma example_fetch_flags:
  "\<exists>R. fetch (example_env parsed_flags) url = Inr R
     \<and> PStr ''EMP_F'' \<in> set (columns R)
     \<and> map (\<lambda>(l, r). cell r (PStr ''EMP_F'')) (rows R) = [PNone, PStr ''a'', PStr ''m'', PStr []]
     \<and> map (\<lambda>(l, r). cell r (PStr ''EMP'')) (rows R) = [PInt 120, PInt 0, PInt 0, PInt 45]"
  by (simp add: fetch_def example_env_def parsed_flags_def promote_header_def raw_header_def
        raw_row_def astype_column_def setitem_def cell_def example_int_def digit_val_def)

lemma example_fetch_unknown:
  "\<exists>R. fetch (example_env parsed_unknown) url = Inr R
     \<and> PStr ''EMP_F'' \<in> set (columns R)
     \<and> map (\<lambda>(l, r). cell r (PStr ''EMP_F'')) (rows R) = [PNone, PStr ''d'', PStr ''D'']"
  by (simp add: fetch_def example_env_def parsed_unknown_def promote_header_def raw_header_def
        raw_row_def astype_column_def setitem_def cell_def example_int_def digit_val_def)

lemma example_init_flags:
  "\<exists>tr self. Counties_init (example_env parsed_flags) ''01'' (YStr ''2014'') ''api''
        (Some ''KEY'') None None True = (tr, Inr self)"
  by (simp add: Counties_init_def fetch_def example_env_def parsed_flags_def
        promote_header_def raw_header_def raw_row_def astype_column_def setitem_def cell_def
        example_int_def digit_val_def impute_and_drop_def impute_def impute_value_def
        emp_imputation_getitem_def emp_imputation_def drop_column_def)

lemma series_nth:
  assumes "map (\<lambda>(l, r). cell r c) rs = vs" and "i < length vs"
  shows "cell (snd (rs ! i)) c = vs ! i"
proof -
  from assms have "i < length rs" by auto
  then have "map (\<lambda>(l, r). cell r c) rs ! i = cell (snd (rs ! i)) c"
    by (simp add: case_prod_beta)
  with assms show ?thesis by simp
qed

lemma emp_imputation_None:
  assumes "s \<notin> set [''a'', ''b'', ''c'', ''e'', ''f'', ''g'', ''h'', ''i'', ''j'', ''k'', ''l'', ''m'']"
  shows "emp_imputation s = None"
  using assms by (simp add: emp_imputation_def)

text \<open>
  C5: the constructor fails with ValueError (the error of a wrong configuration) before
  any request or file read in exactly three cases: \<^verbatim>\<open>read_from\<close> is \<^verbatim>\<open>'api'\<close> and no key
  is given (\<^verbatim>\<open>None\<close> or the empty string), \<^verbatim>\<open>read_from\<close> is \<^verbatim>\<open>'csv'\<close> and no file path
  is given, or \<^verbatim>\<open>read_from\<close> is neither. In every other case the constructor has made one
  request or one read by the time it returns or fails.
\<close>

theorem configuration_errors:
  "(Counties_init e state_fips year read_from key variables filepath impute_emp
      = ([], Inl ValueError)
    \<longleftrightarrow> (read_from = ''api'' \<and> (key = None \<or> key = Some []))
      \<or> (read_from = ''csv'' \<and> (filepath = None \<or> filepath = Some []))
      \<or> (read_from \<noteq> ''api'' \<and> read_from \<noteq> ''csv''))
   \<and> (fst (Counties_init e state_fips year read_from key variables filepath impute_emp) = []
    \<longleftrightarrow> (read_from = ''api'' \<and> (key = None \<or> key = Some []))
      \<or> (read_from = ''csv'' \<and> (filepath = None \<or> filepath = Some []))
      \<or> (read_from \<noteq> ''api'' \<and> read_from \<noteq> ''csv''))"
  by (auto simp: Counties_init_def Let_def split: option.splits)

theorem configuration_errors_witness:
  "Counties_init (example_env parsed_flags) ''01'' (YInt 2014) ''api'' None None None True
     = ([], Inl ValueError)
   \<and> Counties_init (example_env parsed_flags) ''01'' (YInt 2014) ''api'' (Some []) None None True
     = ([], Inl ValueError)
   \<and> Counties_init (example_env parsed_flags) ''01'' (YInt 2014) ''csv'' (Some ''k'') None None True
     = ([], Inl ValueError)
   \<and> Counties_init (example_env parsed_flags) ''01'' (YInt 2014) ''xls'' (Some ''k'') None
        (Some ''cbp.xls'') True
     = ([], Inl ValueError)
   \<and> fst (Counties_init (example_env parsed_flags) ''01'' (YInt 2014) ''api'' (Some ''k'') None
        None True) \<noteq> []
   \<and> fst (Counties_init (example_env parsed_flags) ''01'' (YInt 2014) ''csv'' None None
        (Some ''cbp.csv'') True) \<noteq> []"
  using configuration_errors [of "example_env parsed_flags" "''01''" "YInt 2014" "''api''"
      None None None True]
    configuration_errors [of "example_env parsed_flags" "''01''" "YInt 2014" "''api''"
      "Some []" None None True]
    configuration_errors [of "example_env parsed_flags" "''01''" "YInt 2014" "''csv''"
      "Some ''k''" None None True]
    configuration_errors [of "example_env parsed_flags" "''01''" "YInt 2014" "''xls''"
      "Some ''k''" None "Some ''cbp.xls''" True]
    configuration_errors [of "example_env parsed_flags" "''01''" "YInt 2014" "''api''"
      "Some ''k''" None None True]
    configuration_errors [of "example_env parsed_flags" "''01''" "YInt 2014" "''csv''"
      None None "Some ''cbp.csv''" True]
  by simp

text \<open>
  C1: when the constructor, called with \<^verbatim>\<open>read_from='api'\<close> and \<^verbatim>\<open>impute_emp=True\<close>, returns
  a frame, that frame has no \<^verbatim>\<open>EMP_F\<close> column and no \<^verbatim>\<open>EMP_F\<close> cell, and its rows are
  the rows of the fetched table (the table of line 96, after the casts), in order and
  under the same labels, such that: a row whose flag was non-empty has as \<^verbatim>\<open>EMP\<close> the
  value the imputation table gives for the flag (a=10, b=60, c=175, e=375, f=750,
  g=1750, h=3750, i=7500, j=17500, k=37500, l=75000, m=110000), and a row whose flag was
  empty has the \<^verbatim>\<open>EMP\<close> of the fetched table.
\<close>

theorem api_imputation:
  assumes "Counties_init e state_fips year ''api'' key variables filepath True = (tr, Inr self)"
  shows "\<exists>k results.
      key = Some k \<and> fetch e (request_url state_fips year k variables) = Inr results
    \<and> PStr ''EMP_F'' \<notin> set (columns self)
    \<and> length (rows self) = length (rows results)
    \<and> (\<forall>i < length (rows results).
         fst (rows self ! i) = fst (rows results ! i)
       \<and> snd (rows self ! i) (PStr ''EMP_F'') = None
       \<and> (if truthy (cell (snd (rows results ! i)) (PStr ''EMP_F''))
          then \<exists>s n. cell (snd (rows results ! i)) (PStr ''EMP_F'') = PStr s
                 \<and> emp_imputation s = Some n
                 \<and> (s, n) \<in> set [(''a'', 10), (''b'', 60), (''c'', 175), (''e'', 375),
                       (''f'', 750), (''g'', 1750), (''h'', 3750), (''i'', 7500),
                       (''j'', 17500), (''k'', 37500), (''l'', 75000), (''m'', 110000)]
                 \<and> cell (snd (rows self ! i)) (PStr ''EMP'') = PInt n
          else cell (snd (rows self ! i)) (PStr ''EMP'')
                 = cell (snd (rows results ! i)) (PStr ''EMP'')))"
proof -
  from assms obtain k results where k: "key = Some k"
    and f: "fetch e (request_url state_fips year k variables) = Inr results"
    and s: "impute_and_drop True results = Inr self"
    by (auto simp: Counties_init_def Let_def split: option.splits if_splits sum.splits)
  from impute_and_drop_rows [OF s] obtain vals where
    v: "map (\<lambda>(l, x). impute_value (columns results) x) (rows results) = map Inr vals"
    and c: "PStr ''EMP_F'' \<notin> set (columns self)"
    and r: "rows self = map (\<lambda>((l, x), v). (l, (x(PStr ''EMP'' \<mapsto> v))(PStr ''EMP_F'' := None)))
                      (zip (rows results) vals)"
    by blast
  from v have len: "length vals = length (rows results)"
    by (metis length_map)
  have row: "fst (rows self ! i) = fst (rows results ! i)
       \<and> snd (rows self ! i) (PStr ''EMP_F'') = None
       \<and> (if truthy (cell (snd (rows results ! i)) (PStr ''EMP_F''))
          then \<exists>s n. cell (snd (rows results ! i)) (PStr ''EMP_F'') = PStr s
                 \<and> emp_imputation s = Some n
                 \<and> (s, n) \<in> set [(''a'', 10), (''b'', 60), (''c'', 175), (''e'', 375),
                       (''f'', 750), (''g'', 1750), (''h'', 3750), (''i'', 7500),
                       (''j'', 17500), (''k'', 37500), (''l'', 75000), (''m'', 110000)]
                 \<and> cell (snd (rows self ! i)) (PStr ''EMP'') = PInt n
          else cell (snd (rows self ! i)) (PStr ''EMP'')
                 = cell (snd (rows results ! i)) (PStr ''EMP''))"
    if i: "i < length (rows results)" for i
  proof -
    obtain l x where lx: "rows results ! i = (l, x)"
      by (cases "rows results ! i")
    have "map (\<lambda>(l, x). impute_value (columns results) x) (rows results) ! i = map Inr vals ! i"
      using v by simp
    then have iv: "impute_value (columns results) x = Inr (vals ! i)"
      using i len lx by simp
    have self_i: "rows self ! i = (l, (x(PStr ''EMP'' \<mapsto> vals ! i))(PStr ''EMP_F'' := None))"
      using i len lx by (simp add: r)
    have emp: "cell (snd (rows self ! i)) (PStr ''EMP'') = vals ! i"
      by (simp add: self_i cell_def)
    have table: "(s, n) \<in> set [(''a'', 10), (''b'', 60), (''c'', 175), (''e'', 375),
                       (''f'', 750), (''g'', 1750), (''h'', 3750), (''i'', 7500),
                       (''j'', 17500), (''k'', 37500), (''l'', 75000), (''m'', 110000)]"
      if "emp_imputation s = Some n" for s n
      using that unfolding emp_imputation_def by (rule map_of_SomeD)
    have labels: "fst (rows self ! i) = fst (rows results ! i)"
      "snd (rows self ! i) (PStr ''EMP_F'') = None"
      by (simp_all add: self_i lx)
    show ?thesis
    proof (cases "truthy (cell (snd (rows results ! i)) (PStr ''EMP_F''))")
      case True
      then obtain s n where flag: "cell (snd (rows results ! i)) (PStr ''EMP_F'') = PStr s"
        and imp: "emp_imputation s = Some n" and vi: "vals ! i = PInt n"
        using impute_value_Inr [OF iv] by (auto simp: lx)
      have "\<exists>s n. cell (snd (rows results ! i)) (PStr ''EMP_F'') = PStr s
                 \<and> emp_imputation s = Some n
                 \<and> (s, n) \<in> set [(''a'', 10), (''b'', 60), (''c'', 175), (''e'', 375),
                       (''f'', 750), (''g'', 1750), (''h'', 3750), (''i'', 7500),
                       (''j'', 17500), (''k'', 37500), (''l'', 75000), (''m'', 110000)]
                 \<and> cell (snd (rows self ! i)) (PStr ''EMP'') = PInt n"
      proof (intro exI conjI)
        show "cell (snd (rows results ! i)) (PStr ''EMP_F'') = PStr s" by (rule flag)
        show "emp_imputation s = Some n" by (rule imp)
        show "(s, n) \<in> set [(''a'', 10), (''b'', 60), (''c'', 175), (''e'', 375),
                       (''f'', 750), (''g'', 1750), (''h'', 3750), (''i'', 7500),
                       (''j'', 17500), (''k'', 37500), (''l'', 75000), (''m'', 110000)]"
          by (rule table [OF imp])
        show "cell (snd (rows self ! i)) (PStr ''EMP'') = PInt n"
          using emp vi by simp
      qed
      then show ?thesis
        unfolding if_P [OF True] using labels by blast
    next
      case False
      have "vals ! i = cell x (PStr ''EMP'')"
        using impute_value_Inr [OF iv] False by (simp add: lx)
      then have "cell (snd (rows self ! i)) (PStr ''EMP'')
                 = cell (snd (rows results ! i)) (PStr ''EMP'')"
        using emp by (simp add: lx)
      then show ?thesis
        unfolding if_not_P [OF False] using labels by blast
    qed
  qed
  have len': "length (rows self) = length (rows results)"
    by (simp add: r len)
  from k f c len' row show ?thesis
    by blast
qed

theorem api_imputation_witness:
  "\<exists>tr self. Counties_init (example_env parsed_flags) ''01'' (YStr ''2014'') ''api''
        (Some ''KEY'') None None True = (tr, Inr self)
     \<and> PStr ''EMP_F'' \<notin> set (columns self)
     \<and> length (rows self) = 4
     \<and> cell (snd (rows self ! 0)) (PStr ''EMP'') = PInt 120
     \<and> cell (snd (rows self ! 1)) (PStr ''EMP'') = PInt 10
     \<and> cell (snd (rows self ! 2)) (PStr ''EMP'') = PInt 110000
     \<and> cell (snd (rows self ! 3)) (PStr ''EMP'') = PInt 45"
proof -
  obtain tr self where cs: "Counties_init (example_env parsed_flags) ''01'' (YStr ''2014'')
      ''api'' (Some ''KEY'') None None True = (tr, Inr self)"
    using example_init_flags by blast
  obtain k results where
    f: "fetch (example_env parsed_flags) (request_url ''01'' (YStr ''2014'') k None) = Inr results"
    and c: "PStr ''EMP_F'' \<notin> set (columns self)"
    and len: "length (rows self) = length (rows results)"
    and row: "\<And>i. i < length (rows results) \<Longrightarrow>
       (if truthy (cell (snd (rows results ! i)) (PStr ''EMP_F''))
          then \<exists>s n. cell (snd (rows results ! i)) (PStr ''EMP_F'') = PStr s
                 \<and> emp_imputation s = Some n
                 \<and> (s, n) \<in> set [(''a'', 10), (''b'', 60), (''c'', 175), (''e'', 375),
                       (''f'', 750), (''g'', 1750), (''h'', 3750), (''i'', 7500),
                       (''j'', 17500), (''k'', 37500), (''l'', 75000), (''m'', 110000)]
                 \<and> cell (snd (rows self ! i)) (PStr ''EMP'') = PInt n
          else cell (snd (rows self ! i)) (PStr ''EMP'')
                 = cell (snd (rows results ! i)) (PStr ''EMP''))"
    using api_imputation [OF cs] by blast
  from example_fetch_flags [of "request_url ''01'' (YStr ''2014'') k None"] f
  have flags: "map (\<lambda>(l, r). cell r (PStr ''EMP_F'')) (rows results)
                 = [PNone, PStr ''a'', PStr ''m'', PStr []]"
    and emps: "map (\<lambda>(l, r). cell r (PStr ''EMP'')) (rows results)
                 = [PInt 120, PInt 0, PInt 0, PInt 45]"
    by auto
  have "length (map (\<lambda>(l, r). cell r (PStr ''EMP_F'')) (rows results)) = 4"
    unfolding flags by simp
  then have n: "length (rows results) = 4"
    by simp
  have "cell (snd (rows self ! 0)) (PStr ''EMP'') = PInt 120"
    using row [of 0] n series_nth [OF flags, of 0] series_nth [OF emps, of 0] by simp
  moreover have "cell (snd (rows self ! 1)) (PStr ''EMP'') = PInt 10"
    using row [of 1] n series_nth [OF flags, of 1] by (simp add: emp_imputation_def)
  moreover have "cell (snd (rows self ! 2)) (PStr ''EMP'') = PInt 110000"
    using row [of 2] n series_nth [OF flags, of 2] by (simp add: emp_imputation_def)
  moreover have "cell (snd (rows self ! 3)) (PStr ''EMP'') = PInt 45"
    using row [of 3] n series_nth [OF flags, of 3] series_nth [OF emps, of 3] by simp
  ultimately show ?thesis
    using cs c len n by auto
qed

text \<open>
  C9: the imputation lookup is partial. When the constructor is called with
  \<^verbatim>\<open>read_from='api'\<close>, a key and \<^verbatim>\<open>impute_emp=True\<close>, and the fetched table has the
  \<^verbatim>\<open>EMP_F\<close> column and a row whose flag is non-empty but none of the twelve codes a, b, c,
  e, f, g, h, i, j, k, l, m, then the constructor makes its request and fails: the
  dictionary lookup of line 99 raises (KeyError, or TypeError for a flag that cannot be
  hashed) and no frame is produced. The flags d and D are such flags.
\<close>

theorem unknown_flag_fails:
  assumes "k \<noteq> []"
    and "fetch e (request_url state_fips year k variables) = Inr results"
    and "PStr ''EMP_F'' \<in> set (columns results)"
    and "(l, x) \<in> set (rows results)"
    and "truthy (cell x (PStr ''EMP_F''))"
    and "\<forall>s. cell x (PStr ''EMP_F'') = PStr s \<longrightarrow>
           s \<notin> set [''a'', ''b'', ''c'', ''e'', ''f'', ''g'', ''h'', ''i'', ''j'', ''k'', ''l'', ''m'']"
  shows "\<exists>err. Counties_init e state_fips year ''api'' (Some k) variables filepath True
           = ([HttpGet (request_url state_fips year k variables)], Inl err)
         \<and> (err = KeyError \<or> err = TypeError)"
proof -
  let ?f = "\<lambda>(l :: pyval, x). impute_value (columns results) x"
  have none: "\<forall>s. cell x (PStr ''EMP_F'') = PStr s \<longrightarrow> emp_imputation s = None"
    using assms(6) emp_imputation_None by blast
  obtain err0 where "impute_value (columns results) x = Inl err0"
    using impute_value_unknown [OF assms(3) assms(5) none] by blast
  then have "Inl err0 \<in> set (map ?f (rows results))"
    using assms(4) by force
  then obtain err where err: "collect (map ?f (rows results)) = Inl err"
    using collect_fails by blast
  then have "Inl err \<in> set (map ?f (rows results))"
    by (rule collect_Inl)
  then obtain l' x' where "impute_value (columns results) x' = Inl err"
    by auto
  then have kind: "err = KeyError \<or> err = TypeError"
    using impute_value_Inl assms(3) fetch_columns [OF assms(2)] by blast
  have "impute_and_drop True results = Inl err"
    using err by (simp add: impute_and_drop_def impute_def)
  then have "Counties_init e state_fips year ''api'' (Some k) variables filepath True
           = ([HttpGet (request_url state_fips year k variables)], Inl err)"
    using assms(1,2) by (simp add: Counties_init_def)
  with kind show ?thesis
    by blast
qed

theorem unknown_flag_fails_witness:
  "Counties_init (example_env parsed_unknown) ''01'' (YStr ''2014'') ''api'' (Some ''KEY'')
       None None True
     = ([HttpGet (request_url ''01'' (YStr ''2014'') ''KEY'' None)], Inl KeyError)"
proof -
  let ?url = "request_url ''01'' (YStr ''2014'') ''KEY'' None"
  obtain R where f: "fetch (example_env parsed_unknown) ?url = Inr R"
    and c: "PStr ''EMP_F'' \<in> set (columns R)"
    and flags: "map (\<lambda>(l, r). cell r (PStr ''EMP_F'')) (rows R) = [PNone, PStr ''d'', PStr ''D'']"
    using example_fetch_unknown [of ?url] by (elim exE conjE)
  have "length (map (\<lambda>(l, r). cell r (PStr ''EMP_F'')) (rows R)) = 3"
    unfolding flags by simp
  then have n: "length (rows R) = 3"
    by simp
  have d: "cell (snd (rows R ! 1)) (PStr ''EMP_F'') = PStr ''d''"
    using series_nth [OF flags, of 1] by simp
  have m: "(fst (rows R ! 1), snd (rows R ! 1)) \<in> set (rows R)"
    using n by simp
  have k: "''KEY'' \<noteq> []"
    by simp
  have t: "truthy (cell (snd (rows R ! 1)) (PStr ''EMP_F''))"
    unfolding d by simp
  have u: "\<forall>s. cell (snd (rows R ! 1)) (PStr ''EMP_F'') = PStr s \<longrightarrow>
           s \<notin> set [''a'', ''b'', ''c'', ''e'', ''f'', ''g'', ''h'', ''i'', ''j'', ''k'', ''l'', ''m'']"
    unfolding d by simp
  obtain err where
    "Counties_init (example_env parsed_unknown) ''01'' (YStr ''2014'') ''api'' (Some ''KEY'')
       None None True = ([HttpGet ?url], Inl err)"
    using unknown_flag_fails [OF k f c m t u, of None] by blast
  moreover have "snd (Counties_init (example_env parsed_unknown) ''01'' (YStr ''2014'') ''api''
       (Some ''KEY'') None None True) = Inl KeyError"
    by (simp add: Counties_init_def fetch_def example_env_def parsed_unknown_def
        promote_header_def raw_header_def raw_row_def astype_column_def setitem_def cell_def
        example_int_def digit_val_def impute_and_drop_def impute_def impute_value_def
        emp_imputation_getitem_def emp_imputation_def)
  ultimately show ?thesis
    by simp
qed

lemma distinct_singleton_list:
  assumes "distinct xs" and "set xs = {a}"
  shows "xs = [a]"
proof (cases xs)
  case Nil
  with assms show ?thesis by simp
next
  case (Cons x ys)
  with assms have "x = a" by auto
  moreover have "ys = []"
  proof (cases ys)
    case Nil
    then show ?thesis .
  next
    case (Cons y zs)
    with \<open>xs = x # ys\<close> assms have "y = a" "x \<noteq> y" by auto
    with \<open>x = a\<close> show ?thesis by simp
  qed
  ultimately show ?thesis using Cons by simp
qed

section \<open>Totals\<close>

lemma int64_in_range: "in_int64 n \<Longrightarrow> int64 n = n"
  by (simp add: in_int64_def int64_def)

lemma int64_add: "int64 (a + int64 b) = int64 (a + b)"
proof -
  have "(a + ((b + 9223372036854775808) mod 18446744073709551616 - 9223372036854775808)
          + 9223372036854775808) mod 18446744073709551616
        = (a + (b + 9223372036854775808) mod 18446744073709551616) mod 18446744073709551616"
    by simp
  also have "\<dots> = (a + (b + 9223372036854775808)) mod 18446744073709551616"
    by (rule mod_add_right_eq)
  finally show ?thesis
    by (simp add: int64_def add.assoc)
qed

lemma agg_sum_ints:
  assumes "\<forall>v \<in> set vs. \<exists>n. v = PInt n \<and> in_int64 n"
  shows "agg_sum vs = Inr (int64 (sum_list (map int_value vs)))"
  using assms
proof (induction vs)
  case Nil
  show ?case by (simp add: int64_def)
next
  case (Cons v vs)
  then obtain n where "v = PInt n" "in_int64 n"
    by auto
  with Cons show ?case
    by (simp add: int_value_def int64_add)
qed

lemma collect_map_Inr:
  assumes "\<forall>k \<in> set ks. f k = Inr (g k)"
  shows "collect (map f ks) = Inr (map g ks)"
  using assms by (induction ks) auto

lemma group_keys_set: "set (group_keys ser) = {s. PStr s \<in> set ser}"
  by (auto simp: group_keys_def split: pyval.splits)

lemma group_keys_distinct: "distinct (group_keys ser)"
  by (simp add: group_keys_def)

lemma agg_group_ints:
  assumes "\<forall>(l, r) \<in> set (rows df).
             (\<exists>n. cell r (PStr ''EMP'') = PInt n \<and> in_int64 n)
           \<and> (\<exists>n. cell r (PStr ''ESTAB'') = PInt n \<and> in_int64 n)"
  shows "agg_group df k =
     Inr (PStr k,
          [PStr ''EMP'' \<mapsto> PInt (int64 (sum_list (map (\<lambda>(l, r). int_value (cell r (PStr ''EMP'')))
               (filter (\<lambda>(l, r). cell r (PStr ''NAICS2012'') = PStr k) (rows df))))),
           PStr ''ESTAB'' \<mapsto> PInt (int64 (sum_list (map (\<lambda>(l, r). int_value (cell r (PStr ''ESTAB'')))
               (filter (\<lambda>(l, r). cell r (PStr ''NAICS2012'') = PStr k) (rows df)))))])"
proof -
  let ?grp = "filter (\<lambda>(l, r). cell r (PStr ''NAICS2012'') = PStr k) (rows df)"
  have "\<forall>v \<in> set (map (\<lambda>(l, r). cell r (PStr ''EMP'')) ?grp). \<exists>n. v = PInt n \<and> in_int64 n"
    using assms by auto
  then have emp: "agg_sum (map (\<lambda>(l, r). cell r (PStr ''EMP'')) ?grp)
      = Inr (int64 (sum_list (map int_value (map (\<lambda>(l, r). cell r (PStr ''EMP'')) ?grp))))"
    by (rule agg_sum_ints)
  have "\<forall>v \<in> set (map (\<lambda>(l, r). cell r (PStr ''ESTAB'')) ?grp). \<exists>n. v = PInt n \<and> in_int64 n"
    using assms by auto
  then have estab: "agg_sum (map (\<lambda>(l, r). cell r (PStr ''ESTAB'')) ?grp)
      = Inr (int64 (sum_list (map int_value (map (\<lambda>(l, r). cell r (PStr ''ESTAB'')) ?grp))))"
    by (rule agg_sum_ints)
  have comp: "map int_value (map (\<lambda>(l, r). cell r c) xs) = map (\<lambda>(l, r). int_value (cell r c)) xs"
    for c and xs :: "(pyval \<times> row) list"
    by (induction xs) auto
  show ?thesis
    unfolding agg_group_def Let_def emp estab comp by simp
qed

text \<open>
  C3, as the claim states it, has \<open>total\<close> return the sums of the two count columns for
  every frame. The counts are 64-bit integers and so are their sums: on \<open>overflow_11\<close>,
  two rows of the code 11 with employment 9223372036854775807 and 1, the row of 11 holds
  the employment -9223372036854775808 and not the sum 9223372036854775808.
\<close>

theorem total_overflow_11:
  "total overflow_11 =
     Inr \<lparr>columns = [PStr ''EMP'', PStr ''ESTAB''],
          rows = [(PStr ''11'', [PStr ''EMP'' \<mapsto> PInt (- 9223372036854775808),
                                PStr ''ESTAB'' \<mapsto> PInt 3])]\<rparr>"
  by (simp add: total_def overflow_11_def cbp_columns_def record_row_def cell_def
        group_keys_def agg_group_def in_int64_def int64_def)

text \<open>
  C3 (amended): for every frame with the three columns whose industry codes are strings
  and whose counts are signed 64-bit integers, \<open>total\<close> returns a frame with the two count
  columns and exactly one row per distinct industry code of the input, labelled with
  that code (no row for a code the input does not hold); the \<^verbatim>\<open>EMP\<close> and \<^verbatim>\<open>ESTAB\<close> cells
  of the row of a code are the sums of those columns over all input rows with that code,
  taken in 64-bit arithmetic with wrap-around, and so are the exact sums whenever these
  fit in a signed 64-bit integer. Two rows of the code 11 with employment 5 and 7 and
  establishments 1 and 2 give one row for 11 with employment 12 and establishments 3.
\<close>

theorem total_groups:
  assumes "PStr ''NAICS2012'' \<in> set (columns df)"
    and "PStr ''EMP'' \<in> set (columns df)"
    and "PStr ''ESTAB'' \<in> set (columns df)"
    and "\<forall>(l, r) \<in> set (rows df).
           (\<exists>s. cell r (PStr ''NAICS2012'') = PStr s)
         \<and> (\<exists>n. cell r (PStr ''EMP'') = PInt n \<and> in_int64 n)
         \<and> (\<exists>n. cell r (PStr ''ESTAB'') = PInt n \<and> in_int64 n)"
  shows "\<exists>out. total df = Inr out
     \<and> columns out = [PStr ''EMP'', PStr ''ESTAB'']
     \<and> distinct (map fst (rows out))
     \<and> set (map fst (rows out)) = (\<lambda>(l, r). cell r (PStr ''NAICS2012'')) ` set (rows df)
     \<and> (\<forall>(k, t) \<in> set (rows out).
           cell t (PStr ''EMP'') = PInt (int64 (sum_list (map (\<lambda>(l, r). int_value (cell r (PStr ''EMP'')))
               (filter (\<lambda>(l, r). cell r (PStr ''NAICS2012'') = k) (rows df)))))
         \<and> cell t (PStr ''ESTAB'') = PInt (int64 (sum_list (map (\<lambda>(l, r). int_value (cell r (PStr ''ESTAB'')))
               (filter (\<lambda>(l, r). cell r (PStr ''NAICS2012'') = k) (rows df)))))
         \<and> (in_int64 (sum_list (map (\<lambda>(l, r). int_value (cell r (PStr ''EMP'')))
               (filter (\<lambda>(l, r). cell r (PStr ''NAICS2012'') = k) (rows df))))
              \<longrightarrow> cell t (PStr ''EMP'') = PInt (sum_list (map (\<lambda>(l, r). int_value (cell r (PStr ''EMP'')))
               (filter (\<lambda>(l, r). cell r (PStr ''NAICS2012'') = k) (rows df)))))
         \<and> (in_int64 (sum_list (map (\<lambda>(l, r). int_value (cell r (PStr ''ESTAB'')))
               (filter (\<lambda>(l, r). cell r (PStr ''NAICS2012'') = k) (rows df))))
              \<longrightarrow> cell t (PStr ''ESTAB'') = PInt (sum_list (map (\<lambda>(l, r). int_value (cell r (PStr ''ESTAB'')))
               (filter (\<lambda>(l, r). cell r (PStr ''NAICS2012'') = k) (rows df))))))"
proof -
  let ?code = "\<lambda>(l :: pyval, r). cell r (PStr ''NAICS2012'')"
  let ?keys = "group_keys (map ?code (rows df))"
  let ?g = "\<lambda>k. (PStr k,
          [PStr ''EMP'' \<mapsto> PInt (int64 (sum_list (map (\<lambda>(l, r). int_value (cell r (PStr ''EMP'')))
               (filter (\<lambda>(l, r). cell r (PStr ''NAICS2012'') = PStr k) (rows df))))),
           PStr ''ESTAB'' \<mapsto> PInt (int64 (sum_list (map (\<lambda>(l, r). int_value (cell r (PStr ''ESTAB'')))
               (filter (\<lambda>(l, r). cell r (PStr ''NAICS2012'') = PStr k) (rows df)))))])"
  let ?out = "\<lparr>columns = [PStr ''EMP'', PStr ''ESTAB''], rows = map ?g ?keys\<rparr>"
  have ints: "\<forall>(l, r) \<in> set (rows df).
             (\<exists>n. cell r (PStr ''EMP'') = PInt n \<and> in_int64 n)
           \<and> (\<exists>n. cell r (PStr ''ESTAB'') = PInt n \<and> in_int64 n)"
    using assms(4) by blast
  have "collect (map (agg_group df) ?keys) = Inr (map ?g ?keys)"
    by (rule collect_map_Inr) (simp add: agg_group_ints [OF ints])
  then have res: "total df = Inr ?out"
    using assms(1-3) by (simp add: total_def)
  have labels: "map fst (rows ?out) = map PStr ?keys"
    by simp
  have dist: "distinct (map fst (rows ?out))"
    unfolding labels by (simp add: distinct_map group_keys_distinct inj_on_def)
  have "set (map PStr ?keys) = ?code ` set (rows df)"
  proof
    show "set (map PStr ?keys) \<subseteq> ?code ` set (rows df)"
      by (auto simp: group_keys_set)
    show "?code ` set (rows df) \<subseteq> set (map PStr ?keys)"
    proof
      fix v assume v: "v \<in> ?code ` set (rows df)"
      then obtain l r where "(l, r) \<in> set (rows df)" and "v = cell r (PStr ''NAICS2012'')"
        by auto
      with assms(4) obtain s where "v = PStr s"
        by blast
      with v have "s \<in> set ?keys"
        by (simp add: group_keys_set)
      with \<open>v = PStr s\<close> show "v \<in> set (map PStr ?keys)"
        by simp
    qed
  qed
  then have keys: "set (map fst (rows ?out)) = ?code ` set (rows df)"
    unfolding labels .
  have sums: "\<forall>(k, t) \<in> set (rows ?out).
           cell t (PStr ''EMP'') = PInt (int64 (sum_list (map (\<lambda>(l, r). int_value (cell r (PStr ''EMP'')))
               (filter (\<lambda>(l, r). cell r (PStr ''NAICS2012'') = k) (rows df)))))
         \<and> cell t (PStr ''ESTAB'') = PInt (int64 (sum_list (map (\<lambda>(l, r). int_value (cell r (PStr ''ESTAB'')))
               (filter (\<lambda>(l, r). cell r (PStr ''NAICS2012'') = k) (rows df)))))
         \<and> (in_int64 (sum_list (map (\<lambda>(l, r). int_value (cell r (PStr ''EMP'')))
               (filter (\<lambda>(l, r). cell r (PStr ''NAICS2012'') = k) (rows df))))
              \<longrightarrow> cell t (PStr ''EMP'') = PInt (sum_list (map (\<lambda>(l, r). int_value (cell r (PStr ''EMP'')))
               (filter (\<lambda>(l, r). cell r (PStr ''NAICS2012'') = k) (rows df)))))
         \<and> (in_int64 (sum_list (map (\<lambda>(l, r). int_value (cell r (PStr ''ESTAB'')))
               (filter (\<lambda>(l, r). cell r (PStr ''NAICS2012'') = k) (rows df))))
              \<longrightarrow> cell t (PStr ''ESTAB'') = PInt (sum_list (map (\<lambda>(l, r). int_value (cell r (PStr ''ESTAB'')))
               (filter (\<lambda>(l, r). cell r (PStr ''NAICS2012'') = k) (rows df)))))"
    by (auto simp: cell_def int64_in_range)
  have cols: "columns ?out = [PStr ''EMP'', PStr ''ESTAB'']"
    by simp
  from res cols dist keys sums show ?thesis
    by (intro exI [of _ ?out] conjI)
qed

theorem total_groups_witness:
  "\<exists>out t. total pair_11 = Inr out \<and> rows out = [(PStr ''11'', t)]
     \<and> cell t (PStr ''EMP'') = PInt 12 \<and> cell t (PStr ''ESTAB'') = PInt 3"
proof -
  have c: "PStr ''NAICS2012'' \<in> set (columns pair_11)" "PStr ''EMP'' \<in> set (columns pair_11)"
    "PStr ''ESTAB'' \<in> set (columns pair_11)"
    by (simp_all add: pair_11_def cbp_columns_def)
  have typed: "\<forall>(l, r) \<in> set (rows pair_11).
           (\<exists>s. cell r (PStr ''NAICS2012'') = PStr s)
         \<and> (\<exists>n. cell r (PStr ''EMP'') = PInt n \<and> in_int64 n)
         \<and> (\<exists>n. cell r (PStr ''ESTAB'') = PInt n \<and> in_int64 n)"
    by (simp add: pair_11_def record_row_def cell_def in_int64_def)
  obtain out where res: "total pair_11 = Inr out"
    and dist: "distinct (map fst (rows out))"
    and keys: "set (map fst (rows out))
                 = (\<lambda>(l, r). cell r (PStr ''NAICS2012'')) ` set (rows pair_11)"
    and sums: "\<forall>(k, t) \<in> set (rows out).
           cell t (PStr ''EMP'') = PInt (int64 (sum_list (map (\<lambda>(l, r). int_value (cell r (PStr ''EMP'')))
               (filter (\<lambda>(l, r). cell r (PStr ''NAICS2012'') = k) (rows pair_11)))))
         \<and> cell t (PStr ''ESTAB'') = PInt (int64 (sum_list (map (\<lambda>(l, r). int_value (cell r (PStr ''ESTAB'')))
               (filter (\<lambda>(l, r). cell r (PStr ''NAICS2012'') = k) (rows pair_11)))))
         \<and> (in_int64 (sum_list (map (\<lambda>(l, r). int_value (cell r (PStr ''EMP'')))
               (filter (\<lambda>(l, r). cell r (PStr ''NAICS2012'') = k) (rows pair_11))))
              \<longrightarrow> cell t (PStr ''EMP'') = PInt (sum_list (map (\<lambda>(l, r). int_value (cell r (PStr ''EMP'')))
               (filter (\<lambda>(l, r). cell r (PStr ''NAICS2012'') = k) (rows pair_11)))))
         \<and> (in_int64 (sum_list (map (\<lambda>(l, r). int_value (cell r (PStr ''ESTAB'')))
               (filter (\<lambda>(l, r). cell r (PStr ''NAICS2012'') = k) (rows pair_11))))
              \<longrightarrow> cell t (PStr ''ESTAB'') = PInt (sum_list (map (\<lambda>(l, r). int_value (cell r (PStr ''ESTAB'')))
               (filter (\<lambda>(l, r). cell r (PStr ''NAICS2012'') = k) (rows pair_11)))))"
    using total_groups [OF c typed] by (elim exE conjE)
  have "set (map fst (rows out)) = {PStr ''11''}"
    unfolding keys by (simp add: pair_11_def record_row_def cell_def)
  with dist have "map fst (rows out) = [PStr ''11'']"
    by (rule distinct_singleton_list)
  then obtain t where rows: "rows out = [(PStr ''11'', t)]"
    by (cases "rows out") auto
  have "cell t (PStr ''EMP'') = PInt 12 \<and> cell t (PStr ''ESTAB'') = PInt 3"
    using sums unfolding rows
    by (simp add: pair_11_def record_row_def cell_def int_value_def in_int64_def int64_def)
  with res rows show ?thesis
    by blast
qed

section \<open>The query methods leave their frame alone\<close>

lemma get_county_obj_frame:
  assumes "self < length s"
  shows "take (length s) (snd (get_county_obj s self county)) = s
     \<and> snd (get_county_obj s self county) ! self = s ! self
     \<and> (case fst (get_county_obj s self county) of
           Inl e \<Rightarrow> get_county (s ! self) county = Inl e
         | Inr a \<Rightarrow> length s \<le> a \<and> a < length (snd (get_county_obj s self county))
                   \<and> get_county (s ! self) county = Inr (snd (get_county_obj s self county) ! a))"
proof (cases county)
  case (PList vals)
  then show ?thesis
    using assms
    by (cases "getattr (s ! self) ''county''")
       (simp_all add: get_county_obj_def get_county_def getattr_obj_def getitem_obj_def
          nth_append)
next
  case (PStr v)
  then show ?thesis
    using assms
    by (cases "getattr (s ! self) ''county''")
       (simp_all add: get_county_obj_def get_county_def getattr_obj_def getitem_obj_def
          nth_append)
qed (simp_all add: get_county_obj_def get_county_def assms)

lemma county_step_frame:
  assumes "self < length s"
  shows "take (length s) (snd (get_county_obj (s @ [d]) (length s) county)) = s
     \<and> snd (get_county_obj (s @ [d]) (length s) county) ! self = s ! self
     \<and> (case fst (get_county_obj (s @ [d]) (length s) county) of
           Inl e \<Rightarrow> get_county d county = Inl e
         | Inr a \<Rightarrow> length s \<le> a
                   \<and> a < length (snd (get_county_obj (s @ [d]) (length s) county))
                   \<and> get_county d county
                       = Inr (snd (get_county_obj (s @ [d]) (length s) county) ! a))"
proof -
  let ?out = "get_county_obj (s @ [d]) (length s) county"
  have l: "length s < length (s @ [d])"
    by simp
  note f = get_county_obj_frame [OF l, of county]
  from f have t: "take (length (s @ [d])) (snd ?out) = s @ [d]"
    by blast
  have "take (length s) (snd ?out) = take (length s) (take (length (s @ [d])) (snd ?out))"
    by (simp add: min_def)
  then have keep: "take (length s) (snd ?out) = s"
    unfolding t by simp
  have "snd ?out ! self = take (length s) (snd ?out) ! self"
    using assms by simp
  then have self: "snd ?out ! self = s ! self"
    unfolding keep .
  have res: "case fst ?out of
           Inl e \<Rightarrow> get_county d county = Inl e
         | Inr a \<Rightarrow> length s \<le> a \<and> a < length (snd ?out)
                   \<and> get_county d county = Inr (snd ?out ! a)"
    using f by (auto split: sum.splits)
  from keep self res show ?thesis
    by blast
qed

lemma two_digit_obj_frame:
  assumes "self < length s"
  shows "take (length s) (snd (two_digit_obj s self county)) = s
     \<and> snd (two_digit_obj s self county) ! self = s ! self
     \<and> (case fst (two_digit_obj s self county) of
           Inl e \<Rightarrow> two_digit (s ! self) county = Inl e
         | Inr a \<Rightarrow> length s \<le> a \<and> a < length (snd (two_digit_obj s self county))
                   \<and> two_digit (s ! self) county = Inr (snd (two_digit_obj s self county) ! a))"
proof (cases "getattr (s ! self) ''NAICS2012''")
  case (Inl e)
  then show ?thesis
    using assms by (simp add: two_digit_obj_def two_digit_def two_digits_def getattr_obj_def)
next
  case (Inr naics)
  show ?thesis
  proof (cases "truthy county")
    case False
    with Inr show ?thesis
      using assms
      by (simp add: two_digit_obj_def two_digit_def two_digits_def getattr_obj_def
            getitem_obj_def nth_append)
  next
    case True
    let ?d = "getitem (s ! self)
            (mask_or (map (\<lambda>v. str_len v = Some 2) naics)
               (map (str_contains CHR ''-'') naics))"
    have obj: "two_digit_obj s self county = get_county_obj (s @ [?d]) (length s) county"
      using Inr True by (simp add: two_digit_obj_def getattr_obj_def getitem_obj_def)
    have val: "two_digit (s ! self) county = get_county ?d county"
      using Inr True by (simp add: two_digit_def two_digits_def)
    show ?thesis
      unfolding obj val by (rule county_step_frame [OF assms])
  qed
qed

lemma three_digit_obj_frame:
  assumes "self < length s"
  shows "take (length s) (snd (three_digit_obj s self county)) = s
     \<and> snd (three_digit_obj s self county) ! self = s ! self
     \<and> (case fst (three_digit_obj s self county) of
           Inl e \<Rightarrow> three_digit (s ! self) county = Inl e
         | Inr a \<Rightarrow> length s \<le> a \<and> a < length (snd (three_digit_obj s self county))
                   \<and> three_digit (s ! self) county = Inr (snd (three_digit_obj s self county) ! a))"
proof (cases "getattr (s ! self) ''NAICS2012''")
  case (Inl e)
  then show ?thesis
    using assms by (simp add: three_digit_obj_def three_digit_def three_digits_def getattr_obj_def)
next
  case (Inr naics)
  show ?thesis
  proof (cases "truthy county")
    case False
    with Inr show ?thesis
      using assms
      by (simp add: three_digit_obj_def three_digit_def three_digits_def getattr_obj_def
            getitem_obj_def nth_append)
  next
    case True
    let ?d = "getitem (s ! self)
            (mask_or (map (\<lambda>v. str_len v = Some 3) naics)
               (map Some (series_eq naics (PStr ''00''))))"
    have obj: "three_digit_obj s self county = get_county_obj (s @ [?d]) (length s) county"
      using Inr True by (simp add: three_digit_obj_def getattr_obj_def getitem_obj_def)
    have val: "three_digit (s ! self) county = get_county ?d county"
      using Inr True by (simp add: three_digit_def three_digits_def)
    show ?thesis
      unfolding obj val by (rule county_step_frame [OF assms])
  qed
qed

lemma four_digit_obj_frame:
  assumes "self < length s"
  shows "take (length s) (snd (four_digit_obj s self county)) = s
     \<and> snd (four_digit_obj s self county) ! self = s ! self
     \<and> (case fst (four_digit_obj s self county) of
           Inl e \<Rightarrow> four_digit (s ! self) county = Inl e
         | Inr a \<Rightarrow> length s \<le> a \<and> a < length (snd (four_digit_obj s self county))
                   \<and> four_digit (s ! self) county = Inr (snd (four_digit_obj s self county) ! a))"
proof (cases "getattr (s ! self) ''NAICS2012''")
  case (Inl e)
  then show ?thesis
    using assms by (simp add: four_digit_obj_def four_digit_def four_digits_def getattr_obj_def)
next
  case (Inr naics)
  show ?thesis
  proof (cases "truthy county")
    case False
    with Inr show ?thesis
      using assms
      by (simp add: four_digit_obj_def four_digit_def four_digits_def getattr_obj_def
            getitem_obj_def nth_append)
  next
    case True
    let ?d = "getitem (s ! self)
            (mask_or (map (\<lambda>v. str_len v = Some 4) naics)
               (map Some (series_eq naics (PStr ''00''))))"
    have obj: "four_digit_obj s self county = get_county_obj (s @ [?d]) (length s) county"
      using Inr True by (simp add: four_digit_obj_def getattr_obj_def getitem_obj_def)
    have val: "four_digit (s ! self) county = get_county ?d county"
      using Inr True by (simp add: four_digit_def four_digits_def)
    show ?thesis
      unfolding obj val by (rule county_step_frame [OF assms])
  qed
qed

lemma total_obj_frame:
  assumes "self < length s"
  shows "take (length s) (snd (total_obj s self)) = s
     \<and> snd (total_obj s self) ! self = s ! self
     \<and> (case fst (total_obj s self) of
           Inl e \<Rightarrow> total (s ! self) = Inl e
         | Inr a \<Rightarrow> length s \<le> a \<and> a < length (snd (total_obj s self))
                   \<and> total (s ! self) = Inr (snd (total_obj s self) ! a))"
  using assms by (cases "total (s ! self)") (simp_all add: total_obj_def nth_append)

lemma impute_and_drop_obj_writes:
  assumes "data < length s"
  shows "impute_and_drop_obj s data impute_emp =
           (case impute_and_drop impute_emp (s ! data) of
              Inl e \<Rightarrow> Inl e
            | Inr d \<Rightarrow> Inr (s[data := d]))"
  using assms
  by (auto simp: impute_and_drop_obj_def impute_and_drop_def impute_def setitem_obj_def
        drop_obj_def split: sum.splits)

text \<open>
  C7: every query method leaves the frame it is called on unchanged. In a store where
  calls in place overwrite frames (as lines 99 and 101 of the constructor do), called
  on the object at position \<open>self\<close>, each of \<open>get_county\<close>, \<open>two_digit\<close>, \<open>three_digit\<close>,
  \<open>four_digit\<close> and \<open>total\<close> returns a store that still holds every frame of the old store
  at its position, the frame at \<open>self\<close> among them, rows and columns as before; and when it
  returns a frame, that frame is a new object (its position is none of the old store)
  holding the table the method computes from the frame at \<open>self\<close>.
\<close>

theorem queries_keep_self:
  assumes "self < length s"
  shows
   "(take (length s) (snd (get_county_obj s self county)) = s
     \<and> snd (get_county_obj s self county) ! self = s ! self
     \<and> (case fst (get_county_obj s self county) of
           Inl e \<Rightarrow> get_county (s ! self) county = Inl e
         | Inr a \<Rightarrow> length s \<le> a \<and> a < length (snd (get_county_obj s self county))
                   \<and> get_county (s ! self) county = Inr (snd (get_county_obj s self county) ! a)))
  \<and> (take (length s) (snd (two_digit_obj s self county)) = s
     \<and> snd (two_digit_obj s self county) ! self = s ! self
     \<and> (case fst (two_digit_obj s self county) of
           Inl e \<Rightarrow> two_digit (s ! self) county = Inl e
         | Inr a \<Rightarrow> length s \<le> a \<and> a < length (snd (two_digit_obj s self county))
                   \<and> two_digit (s ! self) county = Inr (snd (two_digit_obj s self county) ! a)))
  \<and> (take (length s) (snd (three_digit_obj s self county)) = s
     \<and> snd (three_digit_obj s self county) ! self = s ! self
     \<and> (case fst (three_digit_obj s self county) of
           Inl e \<Rightarrow> three_digit (s ! self) county = Inl e
         | Inr a \<Rightarrow> length s \<le> a \<and> a < length (snd (three_digit_obj s self county))
                   \<and> three_digit (s ! self) county = Inr (snd (three_digit_obj s self county) ! a)))
  \<and> (take (length s) (snd (four_digit_obj s self county)) = s
     \<and> snd (four_digit_obj s self county) ! self = s ! self
     \<and> (case fst (four_digit_obj s self county) of
           Inl e \<Rightarrow> four_digit (s ! self) county = Inl e
         | Inr a \<Rightarrow> length s \<le> a \<and> a < length (snd (four_digit_obj s self county))
                   \<and> four_digit (s ! self) county = Inr (snd (four_digit_obj s self county) ! a)))
  \<and> (take (length s) (snd (total_obj s self)) = s
     \<and> snd (total_obj s self) ! self = s ! self
     \<and> (case fst (total_obj s self) of
           Inl e \<Rightarrow> total (s ! self) = Inl e
         | Inr a \<Rightarrow> length s \<le> a \<and> a < length (snd (total_obj s self))
                   \<and> total (s ! self) = Inr (snd (total_obj s self) ! a)))"
  using get_county_obj_frame [OF assms, of county] two_digit_obj_frame [OF assms, of county]
    three_digit_obj_frame [OF assms, of county] four_digit_obj_frame [OF assms, of county]
    total_obj_frame [OF assms]
  by (intro conjI) (elim conjE, assumption)+

theorem queries_keep_self_witness:
  "0 < length [mixed_frame]
   \<and> two_digit_obj [mixed_frame] 0 (PStr ''015'') =
       (Inr 2,
        [mixed_frame,
         mixed_frame\<lparr>rows := [(PInt 1, record_row ''013'' ''00'' 100 10),
                                (PInt 2, record_row ''013'' ''11'' 5 1),
                                (PInt 5, record_row ''015'' ''31-33'' 40 4),
                                (PInt 6, record_row ''015'' ''11'' 9 3)]\<rparr>,
         mixed_frame\<lparr>rows := [(PInt 5, record_row ''015'' ''31-33'' 40 4),
                                (PInt 6, record_row ''015'' ''11'' 9 3)]\<rparr>])
   \<and> snd (two_digit_obj [mixed_frame] 0 (PStr ''015'')) ! 0 = mixed_frame
   \<and> two_digit mixed_frame (PStr ''015'')
        = Inr (snd (two_digit_obj [mixed_frame] 0 (PStr ''015'')) ! 2)
   \<and> get_county_obj [mixed_frame] 0 (PSet {|PStr ''013''|}) = (Inl TypeError, [mixed_frame])
   \<and> fst (total_obj [mixed_frame] 0) = Inr 1
   \<and> snd (total_obj [mixed_frame] 0) ! 0 = mixed_frame
   \<and> impute_and_drop_obj [flagged_frame] 0 True =
       Inr [\<lparr>columns = [PStr ''EMP''],
             rows = [(PInt 1, [PStr ''EMP'' \<mapsto> PInt 10, PStr ''EMP_F'' \<mapsto> PStr ''a'']
                                (PStr ''EMP_F'' := None))]\<rparr>]"
proof -
  have l: "0 < length [mixed_frame]"
    by simp
  have a: "two_digit_obj [mixed_frame] 0 (PStr ''015'') =
       (Inr 2,
        [mixed_frame,
         mixed_frame\<lparr>rows := [(PInt 1, record_row ''013'' ''00'' 100 10),
                                (PInt 2, record_row ''013'' ''11'' 5 1),
                                (PInt 5, record_row ''015'' ''31-33'' 40 4),
                                (PInt 6, record_row ''015'' ''11'' 9 3)]\<rparr>,
         mixed_frame\<lparr>rows := [(PInt 5, record_row ''015'' ''31-33'' 40 4),
                                (PInt 6, record_row ''015'' ''11'' 9 3)]\<rparr>])"
    by (simp add: two_digit_obj_def get_county_obj_def getattr_obj_def getitem_obj_def
          getattr_def getitem_def mask_or_def str_len_def str_contains_def series_eq_def
          mixed_frame_def cbp_columns_def record_row_def cell_def)
  have t: "fst (total_obj [mixed_frame] 0) = Inr 1"
    by (simp add: total_obj_def total_def mixed_frame_def cbp_columns_def
          record_row_def cell_def group_keys_def agg_group_def in_int64_def int64_def)
  have g: "get_county_obj [mixed_frame] 0 (PSet {|PStr ''013''|}) = (Inl TypeError, [mixed_frame])"
    by (simp add: get_county_obj_def)
  have w: "impute_and_drop_obj [flagged_frame] 0 True =
       Inr [\<lparr>columns = [PStr ''EMP''],
             rows = [(PInt 1, [PStr ''EMP'' \<mapsto> PInt 10, PStr ''EMP_F'' \<mapsto> PStr ''a'']
                                (PStr ''EMP_F'' := None))]\<rparr>]"
    by (simp add: impute_and_drop_obj_def setitem_obj_def drop_obj_def setitem_def
          drop_column_def impute_value_def emp_imputation_getitem_def emp_imputation_def
          flagged_frame_def cell_def)
  show ?thesis
    using queries_keep_self [OF l, of "PStr ''015''"] a t g w by simp
qed

section \<open>The schema-vintage table\<close>

text \<open>
  C8, as the claim states it, asks for every year in 2009 to 2014 to carry the 2012 revision
  label while 2008 to 2011 carry the 2007 one. The dictionary gives 2009, 2010 and 2011 the
  2007 label only, so the claim fails at the year 2009.
\<close>

theorem naics_year_2009_not_2012:
  "naics_year 2009 = Some ''NAICS2007'' \<and> naics_year 2009 \<noteq> Some ''NAICS2012''"
  by (simp add: naics_year_def)

text \<open>
  C8 (amended): the schema-vintage table maps every year in 2008 to 2011 to the label
  \<^verbatim>\<open>NAICS2007\<close> (the 2007 revision), every year in 2012 to 2014 to \<^verbatim>\<open>NAICS2012\<close> (the
  2012 revision), and has no entry for any other year.
\<close>

theorem naics_year_table:
  "naics_year y =
     (if 2008 \<le> y \<and> y \<le> 2011 then Some ''NAICS2007''
      else if 2012 \<le> y \<and> y \<le> 2014 then Some ''NAICS2012''
      else None)"
proof -
  consider "y < 2008" | "y = 2008" | "y = 2009" | "y = 2010" | "y = 2011"
    | "y = 2012" | "y = 2013" | "y = 2014" | "2014 < y"
    by linarith
  then show ?thesis
    by cases (simp_all add: naics_year_def)
qed

theorem naics_year_table_witness:
  "naics_year 2009 = Some ''NAICS2007'' \<and> naics_year 2013 = Some ''NAICS2012''
   \<and> naics_year 2015 = None"
  using naics_year_table [of 2009] naics_year_table [of 2013] naics_year_table [of 2015]
  by simp

end
